theory Spec2Isabelle
  imports Complex_Main "HOL-Library.Multiset" "HOL-Library.Sublist" "HOL-Library.AList"
    "HOL-Library.Log_Nat"
begin

section \<open>Python values and exceptions\<close>

text \<open>
  The values that \<^verbatim>\<open>response.json()\<close> hands to the program.  Python's \<^verbatim>\<open>None\<close> and
  JSON's \<^verbatim>\<open>null\<close> are the same object, so \<open>JNull\<close> stands for both.  A dict is an
  association list read with \<open>map_of\<close> (the first binding of a key is the dict's value).
  JSON numbers with a fractional part are left out of the model.
\<close>

datatype json =
    JNull
  | JBool bool
  | JInt int
  | JStr string
  | JArr "json list"
  | JObj "(string \<times> json) list"

text \<open>
  The exceptions the modelled code can raise.  \<open>APIError\<close> is the class of
  \<^verbatim>\<open>subsonic.py\<close>; it carries the error code as it was read from the envelope, and
  the message.  \<open>ClientResponseError\<close> is what \<^verbatim>\<open>raise_for_status\<close> raises,
  \<open>ClientError\<close> a failed transport, \<open>ContentTypeError\<close> a body that
  \<^verbatim>\<open>response.json()\<close> cannot decode.
\<close>

datatype exn =
    APIError json string
  | KeyError json
  | TypeError
  | IndexError
  | ZeroDivisionError
  | OverflowError
  | ClientResponseError nat
  | ClientError
  | ContentTypeError

definition exn_bind :: "exn + 'a \<Rightarrow> ('a \<Rightarrow> exn + 'b) \<Rightarrow> exn + 'b" where
  "exn_bind m f = (case m of Inl e \<Rightarrow> Inl e | Inr v \<Rightarrow> f v)"

text \<open>\<^verbatim>\<open>obj[key]\<close> with a string key.\<close>

fun py_getitem :: "json \<Rightarrow> string \<Rightarrow> exn + json" where
  "py_getitem (JObj kvs) k =
     (case map_of kvs k of None \<Rightarrow> Inl (KeyError (JStr k)) | Some v \<Rightarrow> Inr v)"
| "py_getitem _ k = Inl TypeError"

text \<open>\<^verbatim>\<open>obj[0]\<close>.\<close>

fun py_getitem0 :: "json \<Rightarrow> exn + json" where
  "py_getitem0 (JArr []) = Inl IndexError"
| "py_getitem0 (JArr (x # xs)) = Inr x"
| "py_getitem0 (JStr []) = Inl IndexError"
| "py_getitem0 (JStr (c # cs)) = Inr (JStr [c])"
| "py_getitem0 (JObj kvs) = Inl (KeyError (JInt 0))"
| "py_getitem0 _ = Inl TypeError"

text \<open>
  \<^verbatim>\<open>key in obj\<close> with a string key: key membership in a dict, element membership in
  a list, substring test in a string, \<^verbatim>\<open>TypeError\<close> otherwise.
\<close>

fun py_contains :: "string \<Rightarrow> json \<Rightarrow> exn + bool" where
  "py_contains k (JObj kvs) = Inr (map_of kvs k \<noteq> None)"
| "py_contains k (JArr xs) = Inr (List.member xs (JStr k))"
| "py_contains k (JStr s) = Inr (sublist k s)"
| "py_contains k _ = Inl TypeError"

text \<open>\<^verbatim>\<open>for x in obj\<close>: the elements of a list, the keys of a dict, the characters of a string.\<close>

fun py_iter :: "json \<Rightarrow> exn + json list" where
  "py_iter (JArr xs) = Inr xs"
| "py_iter (JObj kvs) = Inr (map JStr (rev (remdups (rev (map fst kvs)))))"
| "py_iter (JStr s) = Inr (map (\<lambda>c. JStr [c]) s)"
| "py_iter _ = Inl TypeError"

text \<open>\<^verbatim>\<open>obj[key] if key in obj else default\<close>, the defaulting rule of every metadata class.\<close>

definition field_or :: "json \<Rightarrow> string \<Rightarrow> json \<Rightarrow> exn + json" where
  "field_or json_object k dflt =
     exn_bind (py_contains k json_object)
       (\<lambda>present. if present then py_getitem json_object k else Inr dflt)"

text \<open>A list built by appending \<open>f x\<close> for each \<open>x\<close>, stopping at the first exception.\<close>

fun map_exn :: "('a \<Rightarrow> exn + 'b) \<Rightarrow> 'a list \<Rightarrow> exn + 'b list" where
  "map_exn f [] = Inr []"
| "map_exn f (x # xs) = exn_bind (f x) (\<lambda>y. exn_bind (map_exn f xs) (\<lambda>ys. Inr (y # ys)))"

section \<open>Metadata model (subsonic.py)\<close>

text \<open>
  \<^verbatim>\<open>class Song\<close>: six private attributes set once by \<^verbatim>\<open>__init__\<close> and read through
  properties that have no setter.  The record's fields are the properties.  An attribute
  holds whatever value the payload has under the key, so every field is a \<open>json\<close>.
\<close>

record Song =
  song_id :: json
  title :: json
  album :: json
  artist :: json
  cover_id :: json
  duration :: json

definition Song_init :: "json \<Rightarrow> exn + Song" where
  "Song_init json_object =
     exn_bind (field_or json_object ''id'' (JStr '''')) (\<lambda>i.
     exn_bind (field_or json_object ''title'' (JStr ''Unknown Track'')) (\<lambda>t.
     exn_bind (field_or json_object ''album'' (JStr ''Unknown Album'')) (\<lambda>al.
     exn_bind (field_or json_object ''artist'' (JStr ''Unknown Artist'')) (\<lambda>ar.
     exn_bind (field_or json_object ''coverArt'' (JStr '''')) (\<lambda>c.
     exn_bind (field_or json_object ''duration'' (JInt 0)) (\<lambda>d.
     Inr \<lparr>song_id = i, title = t, album = al, artist = ar, cover_id = c, duration = d\<rparr>))))))"

text \<open>
  \<^verbatim>\<open>class AlbumMeta\<close> and \<^verbatim>\<open>class Album(AlbumMeta)\<close>.  The property names of the
  source are shared between the classes; here each class prefixes its own.
\<close>

record AlbumMeta =
  album_id :: json
  album_name :: json
  album_artist :: json
  album_cover_id :: json
  album_song_count :: json
  album_duration :: json
  album_year :: json

definition AlbumMeta_init :: "json \<Rightarrow> exn + AlbumMeta" where
  "AlbumMeta_init json_object =
     exn_bind (field_or json_object ''id'' (JStr '''')) (\<lambda>i.
     exn_bind (field_or json_object ''name'' (JStr ''Unknown Album'')) (\<lambda>n.
     exn_bind (field_or json_object ''artist'' (JStr ''Unknown Artist'')) (\<lambda>ar.
     exn_bind (field_or json_object ''coverArt'' (JStr '''')) (\<lambda>c.
     exn_bind (field_or json_object ''songCount'' (JInt 0)) (\<lambda>sc.
     exn_bind (field_or json_object ''duration'' (JInt 0)) (\<lambda>d.
     exn_bind (field_or json_object ''year'' (JInt 0)) (\<lambda>y.
     Inr \<lparr>album_id = i, album_name = n, album_artist = ar, album_cover_id = c,
          album_song_count = sc, album_duration = d, album_year = y\<rparr>)))))))"

record Album = AlbumMeta +
  album_songs :: "Song list"

definition Album_init :: "json \<Rightarrow> exn + Album" where
  "Album_init json_object =
     exn_bind (AlbumMeta_init json_object) (\<lambda>meta.
     exn_bind (py_getitem json_object ''song'') (\<lambda>song_field.
     exn_bind (py_iter song_field) (\<lambda>song_list.
     exn_bind (map_exn Song_init song_list) (\<lambda>ss.
     Inr (AlbumMeta.extend meta (Album.fields ss))))))"

record ArtistMeta =
  artist_id :: json
  artist_name :: json
  artist_cover_id :: json
  artist_album_count :: json

definition ArtistMeta_init :: "json \<Rightarrow> exn + ArtistMeta" where
  "ArtistMeta_init json_object =
     exn_bind (field_or json_object ''id'' (JStr '''')) (\<lambda>i.
     exn_bind (field_or json_object ''name'' (JStr ''Unknown Artist'')) (\<lambda>n.
     exn_bind (field_or json_object ''coverArt'' (JStr '''')) (\<lambda>c.
     exn_bind (field_or json_object ''albumCount'' (JInt 0)) (\<lambda>ac.
     Inr \<lparr>artist_id = i, artist_name = n, artist_cover_id = c, artist_album_count = ac\<rparr>))))"

text \<open>
  \<^verbatim>\<open>class ApiResponse\<close> and \<^verbatim>\<open>class SearchResults(ApiResponse)\<close>, as one record: the
  envelope's status, error code and error message (\<open>JNull\<close> when the envelope has no
  \<^verbatim>\<open>error\<close> member), and the three result lists.
\<close>

record SearchResults =
  raw_response :: json
  status :: json
  error_code :: json
  error_message :: json
  songs :: "Song list"
  albums :: "AlbumMeta list"
  artists :: "ArtistMeta list"

text \<open>
  \<^verbatim>\<open>response["subsonic-response"]["error"][k] if "error" in response["subsonic-response"] else None\<close>,
  the error code and the error message of \<^verbatim>\<open>ApiResponse.__init__\<close>.
\<close>

definition error_member :: "json \<Rightarrow> string \<Rightarrow> exn + json" where
  "error_member response k =
     exn_bind (py_getitem response ''subsonic-response'') (\<lambda>sr.
     exn_bind (py_contains ''error'' sr) (\<lambda>present.
       if present then exn_bind (py_getitem sr ''error'') (\<lambda>err. py_getitem err k)
       else Inr JNull))"

text \<open>
  \<^verbatim>\<open>if key in search_results: for x in search_results[key]: xs.append(C(x))\<close>, the shape of
  each of the three loops of \<^verbatim>\<open>SearchResults.__init__\<close>.
\<close>

definition collect :: "json \<Rightarrow> string \<Rightarrow> (json \<Rightarrow> exn + 'a) \<Rightarrow> exn + 'a list" where
  "collect search_results k init =
     exn_bind (py_contains k search_results) (\<lambda>present.
       if present then
         exn_bind (py_getitem search_results k) (\<lambda>xs.
         exn_bind (py_iter xs) (\<lambda>elems. map_exn init elems))
       else Inr [])"

definition SearchResults_init :: "json \<Rightarrow> exn + SearchResults" where
  "SearchResults_init response =
     exn_bind (py_getitem response ''subsonic-response'') (\<lambda>sr.
     exn_bind (py_getitem sr ''status'') (\<lambda>st.
     exn_bind (error_member response ''code'') (\<lambda>code.
     exn_bind (error_member response ''message'') (\<lambda>msg.
     exn_bind (py_contains ''searchResult3'' sr) (\<lambda>present.
     exn_bind (if present then py_getitem sr ''searchResult3'' else Inr (JObj [])) (\<lambda>results.
     exn_bind (collect results ''song'' Song_init) (\<lambda>ss.
     exn_bind (collect results ''album'' AlbumMeta_init) (\<lambda>als.
     exn_bind (collect results ''artist'' ArtistMeta_init) (\<lambda>ars.
     Inr \<lparr>raw_response = response, status = st, error_code = code, error_message = msg,
          songs = ss, albums = als, artists = ars\<rparr>)))))))))"

section \<open>The remote API client (subsonic.py)\<close>

subsection \<open>The world outside the program\<close>

text \<open>
  A response as the client reads it: the HTTP status, the value of
  \<^verbatim>\<open>response.json()\<close> (\<open>None\<close> when decoding raises) and the bytes of
  \<^verbatim>\<open>response.read()\<close>.
\<close>

record client_response =
  http_status :: nat
  json_body :: "json option"
  content :: "nat list"

datatype request = Get string "(string \<times> json) list"

text \<open>
  The server is a parameter of every operation: what \<^verbatim>\<open>session.get\<close> does with a request,
  a response or an exception.  The world holds the files on disk (path and bytes, the first
  binding of a path is the file), every request issued so far, and the records logged at
  warning level (format string and arguments, as \<^verbatim>\<open>logger.warning\<close> receives them).
  Records below warning level are not kept.
\<close>

type_synonym server = "request \<Rightarrow> exn + client_response"

record world =
  files :: "(string \<times> nat list) list"
  requests :: "request list"
  warnings :: "(string \<times> json list) list"

type_synonym 'a io = "world \<Rightarrow> (exn + 'a) \<times> world"

definition return :: "'a \<Rightarrow> 'a io" where
  "return v = (\<lambda>w. (Inr v, w))"

definition raise :: "exn \<Rightarrow> 'a io" where
  "raise e = (\<lambda>w. (Inl e, w))"

definition lift :: "exn + 'a \<Rightarrow> 'a io" where
  "lift r = (\<lambda>w. (r, w))"

definition io_bind :: "'a io \<Rightarrow> ('a \<Rightarrow> 'b io) \<Rightarrow> 'b io" where
  "io_bind m f = (\<lambda>w. case m w of (Inl e, w') \<Rightarrow> (Inl e, w') | (Inr v, w') \<Rightarrow> f v w')"

definition session_get :: "server \<Rightarrow> request \<Rightarrow> client_response io" where
  "session_get srv req = (\<lambda>w. (srv req, w\<lparr>requests := requests w @ [req]\<rparr>))"

definition raise_for_status :: "client_response \<Rightarrow> exn + unit" where
  "raise_for_status response =
     (if 400 \<le> http_status response then Inl (ClientResponseError (http_status response))
      else Inr ())"

definition response_json :: "client_response \<Rightarrow> exn + json" where
  "response_json response =
     (case json_body response of None \<Rightarrow> Inl ContentTypeError | Some j \<Rightarrow> Inr j)"

text \<open>
  \<^verbatim>\<open>session.get(...)\<close>, \<^verbatim>\<open>response.raise_for_status()\<close>, \<^verbatim>\<open>await response.json()\<close>: the
  first three steps of every operation but the cover-art fetch.
\<close>

definition fetch_json :: "server \<Rightarrow> request \<Rightarrow> json io" where
  "fetch_json srv req =
     io_bind (session_get srv req) (\<lambda>response.
     io_bind (lift (raise_for_status response)) (\<lambda>_.
     lift (response_json response)))"

definition logger_warning :: "string \<Rightarrow> json list \<Rightarrow> unit io" where
  "logger_warning fmt args = (\<lambda>w. (Inr (), w\<lparr>warnings := warnings w @ [(fmt, args)]\<rparr>))"

definition path_exists :: "string \<Rightarrow> bool io" where
  "path_exists p = (\<lambda>w. (Inr (map_of (files w) p \<noteq> None), w))"

definition write_bytes :: "string \<Rightarrow> nat list \<Rightarrow> unit io" where
  "write_bytes p bs = (\<lambda>w. (Inr (), w\<lparr>files := (p, bs) # files w\<rparr>))"

subsection \<open>Request parameters\<close>

text \<open>
  The settings of \<^verbatim>\<open>util/env.py\<close>, a module that is not among the sources; they are
  parameters of the model.
\<close>

record env =
  SUBSONIC_SERVER :: string
  SUBSONIC_USER :: string
  SUBSONIC_PASSWORD :: string

definition SUBSONIC_REQUEST_PARAMS :: "env \<Rightarrow> (string \<times> json) list" where
  "SUBSONIC_REQUEST_PARAMS e =
     [(''u'', JStr (SUBSONIC_USER e)), (''p'', JStr (SUBSONIC_PASSWORD e)),
      (''v'', JStr ''1.15.0''), (''c'', JStr ''discodrome''), (''f'', JStr ''json'')]"

text \<open>
  \<^verbatim>\<open>a | b\<close> on dicts: the keys of \<open>a\<close> in their order, with the values of \<open>b\<close> where \<open>b\<close>
  has the key, then the keys only \<open>b\<close> has.
\<close>

definition dict_union ::
  "(string \<times> json) list \<Rightarrow> (string \<times> json) list \<Rightarrow> (string \<times> json) list" where
  "dict_union a b =
     map (\<lambda>(k, v). (k, case map_of b k of None \<Rightarrow> v | Some v' \<Rightarrow> v')) a
       @ filter (\<lambda>(k, v). map_of a k = None) b"

text \<open>\<^verbatim>\<open>if v is not None: d[k] = v\<close>, for a key that \<open>d\<close> does not have yet.\<close>

definition set_if_given ::
  "string \<Rightarrow> json \<Rightarrow> (string \<times> json) list \<Rightarrow> (string \<times> json) list" where
  "set_if_given k v d = (if v \<noteq> JNull then d @ [(k, v)] else d)"

text \<open>\<^verbatim>\<open>str(n)\<close> for an integer.\<close>

fun str_nat :: "nat \<Rightarrow> string" where
  "str_nat n =
     (if n < 10 then [''0123456789'' ! n]
      else str_nat (n div 10) @ [''0123456789'' ! (n mod 10)])"

declare str_nat.simps [simp del]

definition str_int :: "int \<Rightarrow> string" where
  "str_int i = (if i < 0 then CHR ''-'' # str_nat (nat (- i)) else str_nat (nat i))"

subsection \<open>The error check\<close>

text \<open>
  The argument of \<^verbatim>\<open>check_subsonic_error\<close> is a decoded body in most callers and the
  \<^verbatim>\<open>aiohttp.ClientResponse\<close> itself in \<^verbatim>\<open>get_album_art_file\<close>.
\<close>

datatype api_input = Dict json | Response client_response

text \<open>
  The integer a value compares equal to, which is what a literal pattern of
  \<^verbatim>\<open>match\<close> tests (\<^verbatim>\<open>False == 0\<close> and \<^verbatim>\<open>True == 1\<close> hold in Python).
\<close>

fun int_value :: "json \<Rightarrow> int option" where
  "int_value (JInt n) = Some n"
| "int_value (JBool b) = Some (if b then 1 else 0)"
| "int_value _ = None"

text \<open>The \<^verbatim>\<open>match err_code\<close> statement and the two lines after it.\<close>

definition match_err_code :: "json \<Rightarrow> bool io" where
  "match_err_code err_code =
     (let c = int_value err_code in
      if c = Some 0 then raise (APIError err_code ''Generic Error.'')
      else if c = Some 10 then raise (APIError err_code ''Required Parameter Missing.'')
      else if c = Some 20 then
        raise (APIError err_code
          ''Incompatible Subsonic REST protocol version. Client must upgrade.'')
      else if c = Some 30 then
        raise (APIError err_code
          ''Incompatible Subsonic REST protocol version. Server must upgrade.'')
      else if c = Some 40 then raise (APIError err_code ''Wrong username or password.'')
      else if c = Some 41 then
        raise (APIError err_code ''Token authentication not supported for LDAP users.'')
      else if c = Some 50 then
        raise (APIError err_code ''User is not authorized for the given operation.'')
      else if c = Some 60 then
        raise (APIError err_code ''The trial period for the Subsonic server is over.'')
      else if c = Some 70 then
        io_bind
          (logger_warning ''Subsonic API request responded with error code %s: %s''
             [err_code, JStr ''The requested data was not found.''])
          (\<lambda>_. return True)
      else raise (APIError err_code ''Unknown Error Code.''))"

definition check_subsonic_error :: "api_input \<Rightarrow> bool io" where
  "check_subsonic_error response =
     (case (case response of Dict d \<Rightarrow> Some d | Response r \<Rightarrow> json_body r) of
        None \<Rightarrow> return False
      | Some response' \<Rightarrow>
          io_bind (lift (py_getitem response' ''subsonic-response'')) (\<lambda>sr.
          io_bind (lift (py_getitem sr ''status'')) (\<lambda>st.
            if st = JStr ''ok'' then return False
            else
              io_bind (lift (py_getitem sr ''error'')) (\<lambda>err.
              io_bind (lift (py_getitem err ''code'')) (\<lambda>err_code.
                match_err_code err_code)))))"

subsection \<open>Search\<close>

definition search_request ::
  "env \<Rightarrow> string \<Rightarrow> int \<Rightarrow> int \<Rightarrow> int \<Rightarrow> int \<Rightarrow> int \<Rightarrow> int \<Rightarrow> request" where
  "search_request e query artist_count artist_offset album_count album_offset
       song_count song_offset =
     Get (SUBSONIC_SERVER e @ ''/rest/search3.view'')
       (dict_union (SUBSONIC_REQUEST_PARAMS e)
          [(''query'', JStr query),
           (''artistCount'', JStr (str_int artist_count)),
           (''artistOffset'', JStr (str_int artist_offset)),
           (''albumCount'', JStr (str_int album_count)),
           (''albumOffset'', JStr (str_int album_offset)),
           (''songCount'', JStr (str_int song_count)),
           (''songOffset'', JStr (str_int song_offset))])"

definition search ::
  "env \<Rightarrow> server \<Rightarrow> string \<Rightarrow> int \<Rightarrow> int \<Rightarrow> int \<Rightarrow> int \<Rightarrow> int \<Rightarrow> int \<Rightarrow> SearchResults io" where
  "search e srv query artist_count artist_offset album_count album_offset
       song_count song_offset =
     io_bind (fetch_json srv
                (search_request e query artist_count artist_offset album_count album_offset
                   song_count song_offset)) (\<lambda>search_data.
     lift (SearchResults_init search_data))"

subsection \<open>Artist discography\<close>

definition artist_id_request :: "env \<Rightarrow> string \<Rightarrow> request" where
  "artist_id_request e query =
     Get (SUBSONIC_SERVER e @ ''/rest/search3.view'')
       (dict_union (SUBSONIC_REQUEST_PARAMS e)
          [(''query'', JStr query), (''artistCount'', JStr ''1''),
           (''albumCount'', JStr ''0''), (''albumOffset'', JStr ''0''),
           (''songCount'', JStr ''0''), (''songOffset'', JStr ''0'')])"

text \<open>
  \<^verbatim>\<open>search_data["subsonic-response"]["searchResult3"]["artist"][0]["id"]\<close>
\<close>

definition first_artist_id :: "json \<Rightarrow> exn + json" where
  "first_artist_id search_data =
     exn_bind (py_getitem search_data ''subsonic-response'') (\<lambda>sr.
     exn_bind (py_getitem sr ''searchResult3'') (\<lambda>res.
     exn_bind (py_getitem res ''artist'') (\<lambda>arts.
     exn_bind (py_getitem0 arts) (\<lambda>first.
     py_getitem first ''id''))))"

text \<open>The result is the artist's id, or \<open>JNull\<close> for the \<^verbatim>\<open>None\<close> of the error branch.\<close>

definition get_artist_id :: "env \<Rightarrow> server \<Rightarrow> string \<Rightarrow> json io" where
  "get_artist_id e srv query =
     io_bind (fetch_json srv (artist_id_request e query)) (\<lambda>search_data.
     io_bind (check_subsonic_error (Dict search_data)) (\<lambda>err.
       if err then return JNull
       else lift (first_artist_id search_data)))"

definition artist_request :: "env \<Rightarrow> json \<Rightarrow> request" where
  "artist_request e artistid =
     Get (SUBSONIC_SERVER e @ ''/rest/getArtist.view'')
       (dict_union (SUBSONIC_REQUEST_PARAMS e) [(''id'', artistid)])"

definition album_request :: "env \<Rightarrow> json \<Rightarrow> request" where
  "album_request e albumid =
     Get (SUBSONIC_SERVER e @ ''/rest/getAlbum.view'')
       (dict_union (SUBSONIC_REQUEST_PARAMS e) [(''id'', albumid)])"

text \<open>\<^verbatim>\<open>search_data["subsonic-response"]["artist"]["album"]\<close>\<close>

definition artist_albums :: "json \<Rightarrow> exn + json" where
  "artist_albums search_data =
     exn_bind (py_getitem search_data ''subsonic-response'') (\<lambda>sr.
     exn_bind (py_getitem sr ''artist'') (\<lambda>art.
     py_getitem art ''album''))"

text \<open>\<^verbatim>\<open>Album(album["subsonic-response"]["album"])\<close>\<close>

definition album_of_response :: "json \<Rightarrow> exn + Album" where
  "album_of_response album_data =
     exn_bind (py_getitem album_data ''subsonic-response'') (\<lambda>sr.
     exn_bind (py_getitem sr ''album'') Album_init)"

text \<open>
  The loop \<^verbatim>\<open>for albuminfo in albums\<close> of \<^verbatim>\<open>get_artist_discography\<close>, with
  \<open>album_list\<close> the list built so far and \<open>album_data\<close> the decoded body that the source
  calls \<^verbatim>\<open>album\<close> until it is parsed.  \<open>None\<close> is the \<^verbatim>\<open>return None\<close> inside the loop.
\<close>

fun fetch_albums :: "env \<Rightarrow> server \<Rightarrow> json list \<Rightarrow> Album list \<Rightarrow> Album list option io" where
  "fetch_albums e srv [] album_list = return (Some album_list)"
| "fetch_albums e srv (albuminfo # rest) album_list =
     io_bind (lift (py_getitem albuminfo ''id'')) (\<lambda>albumid.
     io_bind (fetch_json srv (album_request e albumid)) (\<lambda>album_data.
     io_bind (check_subsonic_error (Dict album_data)) (\<lambda>err.
       if err then return None
       else
         io_bind (lift (album_of_response album_data)) (\<lambda>a.
         fetch_albums e srv rest (album_list @ [a])))))"

definition get_artist_discography :: "env \<Rightarrow> server \<Rightarrow> string \<Rightarrow> Album list option io" where
  "get_artist_discography e srv query =
     io_bind (get_artist_id e srv query) (\<lambda>artistid.
     io_bind (fetch_json srv (artist_request e artistid)) (\<lambda>search_data.
     io_bind (check_subsonic_error (Dict search_data)) (\<lambda>err.
       if err then return None
       else
         io_bind (lift (artist_albums search_data)) (\<lambda>albums.
         io_bind (lift (py_iter albums)) (\<lambda>album_infos.
         fetch_albums e srv album_infos [])))))"

subsection \<open>Cover art\<close>

definition cover_art_request :: "env \<Rightarrow> string \<Rightarrow> int \<Rightarrow> request" where
  "cover_art_request e cover_id' size' =
     Get (SUBSONIC_SERVER e @ ''/rest/getCoverArt'')
       (dict_union (SUBSONIC_REQUEST_PARAMS e)
          [(''id'', JStr cover_id'), (''size'', JStr (str_int size'))])"

definition get_album_art_file :: "env \<Rightarrow> server \<Rightarrow> string \<Rightarrow> int \<Rightarrow> string io" where
  "get_album_art_file e srv cover_id' size' =
     (let target_path = ''cache/'' @ cover_id' @ ''.jpg'' in
      io_bind (path_exists target_path) (\<lambda>cached.
        if cached then return target_path
        else
          io_bind (session_get srv (cover_art_request e cover_id' size')) (\<lambda>response.
          io_bind (check_subsonic_error (Response response)) (\<lambda>err.
            if err \<or> http_status response \<noteq> 200 then return ''resources/cover_not_found.jpg''
            else
              io_bind (write_bytes target_path (content response)) (\<lambda>_.
              return target_path)))))"

subsection \<open>Random and similar songs\<close>

text \<open>An optional argument left at its default \<^verbatim>\<open>None\<close> is \<open>JNull\<close>.\<close>

definition random_songs_request :: "env \<Rightarrow> json \<Rightarrow> json \<Rightarrow> json \<Rightarrow> json \<Rightarrow> json \<Rightarrow> request" where
  "random_songs_request e size' genre from_year to_year music_folder_id =
     Get (SUBSONIC_SERVER e @ ''/rest/getRandomSongs.view'')
       (dict_union (SUBSONIC_REQUEST_PARAMS e)
          (set_if_given ''musicFolderId'' music_folder_id
          (set_if_given ''toYear'' to_year
          (set_if_given ''fromYear'' from_year
          (set_if_given ''genre'' genre
          (set_if_given ''size'' size' []))))))"

text \<open>\<^verbatim>\<open>for item in search_data["subsonic-response"][member]["song"]: results.append(Song(item))\<close>\<close>

definition songs_of_member :: "json \<Rightarrow> exn + Song list" where
  "songs_of_member member =
     exn_bind (py_getitem member ''song'') (\<lambda>song_field.
     exn_bind (py_iter song_field) (\<lambda>items. map_exn Song_init items))"

definition get_random_songs ::
  "env \<Rightarrow> server \<Rightarrow> json \<Rightarrow> json \<Rightarrow> json \<Rightarrow> json \<Rightarrow> json \<Rightarrow> Song list io" where
  "get_random_songs e srv size' genre from_year to_year music_folder_id =
     io_bind (fetch_json srv
                (random_songs_request e size' genre from_year to_year music_folder_id))
       (\<lambda>search_data.
     io_bind (check_subsonic_error (Dict search_data)) (\<lambda>err.
       if err then return []
       else
         lift (exn_bind (py_getitem search_data ''subsonic-response'') (\<lambda>sr.
               exn_bind (py_getitem sr ''randomSongs'') songs_of_member))))"

definition similar_songs_request :: "env \<Rightarrow> json \<Rightarrow> int \<Rightarrow> request" where
  "similar_songs_request e song_id' count' =
     Get (SUBSONIC_SERVER e @ ''/rest/getSimilarSongs.view'')
       (dict_union (SUBSONIC_REQUEST_PARAMS e) [(''id'', song_id'), (''count'', JInt count')])"

definition get_similar_songs :: "env \<Rightarrow> server \<Rightarrow> json \<Rightarrow> int \<Rightarrow> Song list io" where
  "get_similar_songs e srv song_id' count' =
     (if song_id' = JNull then return []
      else
        io_bind (fetch_json srv (similar_songs_request e song_id' count')) (\<lambda>search_data.
        io_bind (check_subsonic_error (Dict search_data)) (\<lambda>subsonic_error.
          if subsonic_error then return []
          else
            io_bind (lift (exn_bind (py_getitem search_data ''subsonic-response'') (\<lambda>sr.
                           py_getitem sr ''similarSongs''))) (\<lambda>similar.
              if similar = JObj [] then return []
              else lift (songs_of_member similar)))))"

section \<open>Playback commands (extensions/music.py)\<close>

text \<open>
  Songs are objects: a queue holds references to them, and \<^verbatim>\<open>copy.deepcopy\<close> makes new
  ones.  The heap is the list of all Song objects made so far and a reference is a
  position in it.  A queue entry is a reference or Python's \<^verbatim>\<open>None\<close>.
\<close>

type_synonym ref = nat

text \<open>
  Modelled from the spec: \<^verbatim>\<open>class Player\<close> of \<^verbatim>\<open>data.py\<close> is not among the sources.
  The spec gives the per-guild state as an ordered, mutable queue of tracks and an
  optional current-track reference; the commands below read and assign exactly the
  attributes \<^verbatim>\<open>queue\<close> and \<^verbatim>\<open>current_song\<close>.
\<close>

record Player =
  queue :: "ref option list"
  current_song :: "ref option"

text \<open>
  The voice connection of \<^verbatim>\<open>discord.py\<close>, as far as the commands use it, and the
  embeds sent to the channel by \<^verbatim>\<open>ui.SysMsg.msg\<close> (a header) and \<^verbatim>\<open>ui.ErrMsg.msg\<close>
  (a description under the title \<^verbatim>\<open>Error\<close>).
\<close>

record voice_client =
  is_playing :: bool

datatype message = SysMsg string | ErrMsg string

record bot =
  heap :: "Song list"
  players :: "(nat \<times> Player) list"
  voice_clients :: "(nat \<times> voice_client) list"
  sent :: "message list"

text \<open>
  Modelled from the spec: \<^verbatim>\<open>data.guild_data(id).player\<close>, a registry that is not among
  the sources.  The spec has one Player per guild, created on first access with an empty
  queue and no current track.
\<close>

definition guild_player :: "bot \<Rightarrow> nat \<Rightarrow> Player" where
  "guild_player st guild =
     (case map_of (players st) guild of
        None \<Rightarrow> \<lparr>queue = [], current_song = None\<rparr>
      | Some p \<Rightarrow> p)"

definition set_guild_player :: "nat \<Rightarrow> Player \<Rightarrow> bot \<Rightarrow> bot" where
  "set_guild_player guild p st = st\<lparr>players := AList.update guild p (players st)\<rparr>"

definition send :: "message \<Rightarrow> bot \<Rightarrow> bot" where
  "send m st = st\<lparr>sent := sent st @ [m]\<rparr>"

text \<open>
  \<^verbatim>\<open>MusicCog.stop\<close>.  The call \<^verbatim>\<open>ui.ErrMsg.not_playing(ctx)\<close> of the first test is not
  awaited, so nothing is sent and the command goes on.  \<^verbatim>\<open>voice_client.stop()\<close> ends the
  playback of the sink.  Then the two assignments, in the order of the source:
  \<^verbatim>\<open>player.current_song = None\<close> and \<^verbatim>\<open>player.queue.insert(0, player.current_song)\<close>.
\<close>

definition stop :: "nat \<Rightarrow> bot \<Rightarrow> bot" where
  "stop guild st =
     (let player = guild_player st guild in
      case map_of (voice_clients st) guild of
        None \<Rightarrow> send (ErrMsg ''Not currently connected to a voice channel.'') st
      | Some vc \<Rightarrow>
          (let st1 = st\<lparr>voice_clients :=
                         AList.update guild (vc\<lparr>is_playing := False\<rparr>) (voice_clients st)\<rparr>;
               player1 = player\<lparr>current_song := None\<rparr>;
               player2 = player1\<lparr>queue := current_song player1 # queue player1\<rparr>
           in send (SysMsg ''Stopped queue playback'') (set_guild_player guild player2 st1)))"

text \<open>
  \<^verbatim>\<open>copy.deepcopy\<close> of a queue.  The result is a new list; \<^verbatim>\<open>None\<close> is copied to
  itself; a Song is copied to a new object with the same attribute values, once for each
  distinct object (the memo of \<^verbatim>\<open>deepcopy\<close>).  A reference in a queue always points
  into the heap.
\<close>

fun deepcopy ::
  "(ref \<times> ref) list \<Rightarrow> Song list \<Rightarrow> ref option list \<Rightarrow> Song list \<times> ref option list" where
  "deepcopy memo h [] = (h, [])"
| "deepcopy memo h (None # xs) =
     (let (h', ys) = deepcopy memo h xs in (h', None # ys))"
| "deepcopy memo h (Some a # xs) =
     (case map_of memo a of
        Some b \<Rightarrow> (let (h', ys) = deepcopy memo h xs in (h', Some b # ys))
      | None \<Rightarrow>
          (let b = length h;
               (h', ys) = deepcopy ((a, b) # memo) (h @ [h ! a]) xs
           in (h', Some b # ys)))"

text \<open>
  \<^verbatim>\<open>randint(a, b)\<close>: an integer between \<open>a\<close> and \<open>b\<close>, both included, chosen by the raw
  draw \<open>r\<close>.  Every value of the range is the choice of some draw.
\<close>

definition randint :: "nat \<Rightarrow> nat \<Rightarrow> nat \<Rightarrow> nat" where
  "randint a b r = a + r mod (b - a + 1)"

text \<open>
  The \<^verbatim>\<open>while\<close> loop of \<^verbatim>\<open>MusicCog.shuffle\<close>; \<open>rng i\<close> is the raw draw of the
  \<open>i\<close>-th iteration.  \<^verbatim>\<open>temporaryqueue.pop(randomindex)\<close> removes and returns the
  element at an index that is in range.
\<close>

function shuffle_loop :: "(nat \<Rightarrow> nat) \<Rightarrow> nat \<Rightarrow> 'a list \<Rightarrow> 'a list \<Rightarrow> 'a list" where
  "shuffle_loop rng i temporaryqueue shuffledqueue =
     (if length temporaryqueue > 0 then
        (let randomindex = randint 0 (length temporaryqueue - 1) (rng i)
         in shuffle_loop rng (Suc i)
              (take randomindex temporaryqueue @ drop (Suc randomindex) temporaryqueue)
              (shuffledqueue @ [temporaryqueue ! randomindex]))
      else shuffledqueue)"
  by pat_completeness auto
termination
proof (relation "measure (\<lambda>(rng, i, temporaryqueue, shuffledqueue). length temporaryqueue)")
  show "wf (measure (\<lambda>(rng, i, temporaryqueue, shuffledqueue). length temporaryqueue))"
    by simp
next
  fix rng :: "nat \<Rightarrow> nat" and i :: nat and temporaryqueue shuffledqueue :: "'a list"
    and randomindex
  assume nonempty: "0 < length temporaryqueue"
    and idx: "randomindex = randint 0 (length temporaryqueue - 1) (rng i)"
  have "randomindex < length temporaryqueue"
    using nonempty idx mod_less_divisor [of "length temporaryqueue" "rng i"]
    by (simp add: randint_def)
  then show "((rng, Suc i,
               take randomindex temporaryqueue @ drop (Suc randomindex) temporaryqueue,
               shuffledqueue @ [temporaryqueue ! randomindex]),
              (rng, i, temporaryqueue, shuffledqueue))
             \<in> measure (\<lambda>(rng, i, temporaryqueue, shuffledqueue). length temporaryqueue)"
    by simp
qed

declare shuffle_loop.simps [simp del]

definition shuffle :: "(nat \<Rightarrow> nat) \<Rightarrow> nat \<Rightarrow> bot \<Rightarrow> bot" where
  "shuffle rng guild st =
     (let (h, temporaryqueue) = deepcopy [] (heap st) (queue (guild_player st guild));
          shuffledqueue = shuffle_loop rng 0 temporaryqueue [];
          st1 = st\<lparr>heap := h\<rparr>
      in send (SysMsg ''Queue shuffled!'')
           (set_guild_player guild ((guild_player st1 guild)\<lparr>queue := shuffledqueue\<rparr>) st1))"

text \<open>The Song a queue entry stands for.\<close>

definition deref :: "Song list \<Rightarrow> ref option \<Rightarrow> Song option" where
  "deref h x = map_option (\<lambda>a. h ! a) x"

subsection \<open>The occupancy watchdog\<close>

text \<open>
  \<^verbatim>\<open>MusicCog.on_voice_state_update\<close>.  The handler is a coroutine that is suspended once, at
  \<^verbatim>\<open>await sleep(10)\<close>; it is modelled as its two halves, the one that runs when the event
  arrives and the one that runs when the wait ends.  What
  \<^verbatim>\<open>len(voice_client.channel.members)\<close> returns is decided by the voice channel, outside the
  program, so each of the two readings is a parameter.  \<^verbatim>\<open>voice_client.disconnect()\<close> is
  recorded as an action and takes the guild's voice connection away from the bot's
  \<^verbatim>\<open>voice_clients\<close>.
\<close>

datatype action = Sleep nat | Disconnect nat

text \<open>The first half: whether the handler goes to sleep.\<close>

definition watch_begin :: "nat \<Rightarrow> nat \<Rightarrow> bot \<Rightarrow> bool" where
  "watch_begin guild members st =
     (case map_of (voice_clients st) guild of
        None \<Rightarrow> False
      | Some vc \<Rightarrow> members = 1)"

text \<open>The second half, on the state at the end of the wait.\<close>

definition watch_expire :: "nat \<Rightarrow> nat \<Rightarrow> bot \<Rightarrow> bot \<times> action list" where
  "watch_expire guild members st =
     (if members = 1 then
        (let st1 = st\<lparr>voice_clients := AList.delete guild (voice_clients st)\<rparr>;
             player = guild_player st1 guild;
             player1 = player\<lparr>queue := []\<rparr>;
             player2 = player1\<lparr>current_song := None\<rparr>
         in (set_guild_player guild player2 st1, [Disconnect guild]))
      else (st, []))"

text \<open>One handler from event to end, when nothing else runs during its wait.\<close>

definition on_voice_state_update :: "nat \<Rightarrow> nat \<Rightarrow> nat \<Rightarrow> bot \<Rightarrow> bot \<times> action list" where
  "on_voice_state_update guild members_at_event members_at_expiry st =
     (if watch_begin guild members_at_event st then
        (let (st', acts) = watch_expire guild members_at_expiry st in (st', Sleep 10 # acts))
      else (st, []))"

text \<open>
  The second halves of handlers that wait at the same time, run one after the other, each
  with its own reading.
\<close>

fun watch_expire_all :: "nat \<Rightarrow> nat list \<Rightarrow> bot \<Rightarrow> bot \<times> action list" where
  "watch_expire_all guild [] st = (st, [])"
| "watch_expire_all guild (members # rest) st =
     (let (st1, acts1) = watch_expire guild members st;
          (st2, acts2) = watch_expire_all guild rest st1
      in (st2, acts1 @ acts2))"

text \<open>
  Overlapping triggers for one guild: the events arrive, in the order of the list, before the
  first wait ends, each with its reading at the event and its reading at the end of its
  wait.  The first halves change nothing, so each sees the state \<open>st\<close>; the waits are equally
  long, so they end in the order in which they began.
\<close>

definition overlapping_triggers :: "nat \<Rightarrow> (nat \<times> nat) list \<Rightarrow> bot \<Rightarrow> bot \<times> action list" where
  "overlapping_triggers guild triggers st =
     (let waiting = filter (\<lambda>(members_at_event, members_at_expiry).
                              watch_begin guild members_at_event st) triggers;
          (st', acts) = watch_expire_all guild (map snd waiting) st
      in (st', map (\<lambda>t. Sleep 10) waiting @ acts))"

section \<open>Pagination (pagination.py)\<close>

record 'a page_entry =
  input_index :: nat
  data :: 'a

record 'a ListPaginator =
  pages :: "'a page_entry list list"
  items_per_page :: int
  num_pages :: int

text \<open>
  \<^verbatim>\<open>a / b\<close> for two Python ints is a float: the binary64 number nearest to the exact
  quotient, ties going to the even significand, with gradual underflow (the spacing of
  the doubles never falls below \<open>2 powi - 1074\<close>), so a quotient of at most
  \<open>2 powi - 1075\<close> becomes \<^verbatim>\<open>0.0\<close>.  A float is modelled by the rational number it
  denotes.  \<open>round_half_even\<close> is rounding to the nearest integer, ties to even.
\<close>

definition round_half_even :: "rat \<Rightarrow> int" where
  "round_half_even x =
     (let f = \<lfloor>x\<rfloor>; d = x - of_int f
      in if d < 1 / 2 then f else if 1 / 2 < d then f + 1 else if even f then f else f + 1)"

text \<open>
  The binary exponent of \<open>a / b\<close> for positive \<open>a\<close> and \<open>b\<close>: the \<open>e\<close> with
  \<open>2 powi e \<le> a / b < 2 powi (e + 1)\<close>, found from the bit lengths of the operands.
\<close>

definition floor_log2 :: "int \<Rightarrow> int \<Rightarrow> int" where
  "floor_log2 a b =
     (let e = bitlen a - bitlen b
      in if (2 :: rat) powi e \<le> of_int a / of_int b then e else e - 1)"

text \<open>
  The double nearest to \<open>a / b\<close> for \<open>b \<noteq> 0\<close>, before the range check: the quotient is
  rounded to a multiple of \<open>2 powi p\<close>, where \<open>p\<close> leaves 53 significant bits, or is
  \<open>- 1074\<close> in the subnormal range.
\<close>

definition nearest_double :: "int \<Rightarrow> int \<Rightarrow> rat" where
  "nearest_double a b =
     (if a = 0 then 0
      else let x = \<bar>of_int a / of_int b\<bar>;
               p = max (floor_log2 \<bar>a\<bar> \<bar>b\<bar> - 52) (- 1074);
               m = round_half_even (x / 2 powi p)
           in (if (a < 0) = (b < 0) then 1 else - 1) * (of_int m * 2 powi p))"

text \<open>
  \<^verbatim>\<open>a / b\<close>: division by zero raises \<^verbatim>\<open>ZeroDivisionError\<close>, a quotient that rounds
  beyond the largest double raises \<^verbatim>\<open>OverflowError\<close>.
\<close>

definition true_div :: "int \<Rightarrow> int \<Rightarrow> exn + rat" where
  "true_div a b =
     (if b = 0 then Inl ZeroDivisionError
      else let r = nearest_double a b
           in if 2 ^ 1024 \<le> \<bar>r\<bar> then Inl OverflowError else Inr r)"

text \<open>
  \<^verbatim>\<open>math.ceil(len(items) / items_per_page)\<close> and \<^verbatim>\<open>math.floor(i / items_per_page)\<close>:
  the ceiling and the floor of the float quotient.
\<close>

definition ceil_div :: "int \<Rightarrow> int \<Rightarrow> exn + int" where
  "ceil_div n k = exn_bind (true_div n k) (\<lambda>q. Inr \<lceil>q\<rceil>)"

definition floor_div :: "int \<Rightarrow> int \<Rightarrow> exn + int" where
  "floor_div i k = exn_bind (true_div i k) (\<lambda>q. Inr \<lfloor>q\<rfloor>)"

text \<open>\<^verbatim>\<open>pages[j]\<close> for an integer \<open>j\<close>: a negative index counts from the end.\<close>

definition list_index :: "'a list \<Rightarrow> int \<Rightarrow> exn + nat" where
  "list_index xs j =
     (let n = int (length xs); j' = (if j < 0 then n + j else j)
      in if 0 \<le> j' \<and> j' < n then Inr (nat j') else Inl IndexError)"

text \<open>
  The second loop of \<^verbatim>\<open>__init__\<close>, over the indices \<^verbatim>\<open>range(len(items))\<close> computed
  before the first iteration.  The state is the pages and the caller's list.
\<close>

fun fill_pages ::
  "int \<Rightarrow> nat list \<Rightarrow> 'a page_entry list list \<Rightarrow> 'a list \<Rightarrow>
     exn + ('a page_entry list list \<times> 'a list)" where
  "fill_pages k [] pgs items = Inr (pgs, items)"
| "fill_pages k (i # is) pgs items =
     exn_bind (floor_div (int i) k) (\<lambda>q.
     exn_bind (list_index pgs q) (\<lambda>j.
       (case items of
          [] \<Rightarrow> Inl IndexError
        | x # rest \<Rightarrow>
            fill_pages k is (pgs[j := pgs ! j @ [\<lparr>input_index = i, data = x\<rparr>]]) rest)))"

text \<open>
  \<^verbatim>\<open>ListPaginator(items, items_per_page)\<close>.  The result is the new object together with
  the caller's list as the constructor leaves it.
\<close>

definition ListPaginator_init :: "'a list \<Rightarrow> int \<Rightarrow> exn + ('a ListPaginator \<times> 'a list)" where
  "ListPaginator_init items k =
     exn_bind (ceil_div (int (length items)) k) (\<lambda>np.
     exn_bind (fill_pages k [0 ..< length items] (replicate (nat np) []) items) (\<lambda>(pgs, items').
     Inr (\<lparr>pages = pgs, items_per_page = k, num_pages = np\<rparr>, items')))"

section \<open>Outcomes of an exchange\<close>

text \<open>
  Notions for the statements about \<open>get_artist_discography\<close>.  \<open>ok_body srv req\<close> is
  the decoded body of the answer to \<open>req\<close> when the exchange raises nothing and sets no
  error flag: the server answers, the HTTP status is below 400, the body decodes, and its
  envelope has the status \<^verbatim>\<open>ok\<close>.  \<open>album_fetched e srv albuminfo a\<close> says that the entry
  \<open>albuminfo\<close> of an artist's album list has an id, that the album request for this id ends
  well, and that \<open>a\<close> is the Album parsed from the body.
\<close>

definition ok_body :: "server \<Rightarrow> request \<Rightarrow> json option" where
  "ok_body srv req =
     (case srv req of
        Inl ex \<Rightarrow> None
      | Inr resp \<Rightarrow>
          if 400 \<le> http_status resp then None
          else (case json_body resp of
                  None \<Rightarrow> None
                | Some d \<Rightarrow>
                    (case py_getitem d ''subsonic-response'' of
                       Inl ex \<Rightarrow> None
                     | Inr sr \<Rightarrow>
                         if py_getitem sr ''status'' = Inr (JStr ''ok'') then Some d else None)))"

definition album_fetched :: "env \<Rightarrow> server \<Rightarrow> json \<Rightarrow> Album \<Rightarrow> bool" where
  "album_fetched e srv albuminfo a =
     (case py_getitem albuminfo ''id'' of
        Inl ex \<Rightarrow> False
      | Inr albumid \<Rightarrow>
          (case ok_body srv (album_request e albumid) of
             None \<Rightarrow> False
           | Some d \<Rightarrow> album_of_response d = Inr a))"

text \<open>
  \<open>not_found srv req\<close> says that the exchange for \<open>req\<close> raises nothing and sets the error
  flag: the server answers, the HTTP status is below 400, the body decodes, and its envelope
  has a status other than \<^verbatim>\<open>ok\<close> and the error code 70.
\<close>

definition not_found :: "server \<Rightarrow> request \<Rightarrow> bool" where
  "not_found srv req =
     (case srv req of
        Inl ex \<Rightarrow> False
      | Inr resp \<Rightarrow>
          if 400 \<le> http_status resp then False
          else (case json_body resp of
                  None \<Rightarrow> False
                | Some d \<Rightarrow>
                    (case py_getitem d ''subsonic-response'' of
                       Inl ex \<Rightarrow> False
                     | Inr sr \<Rightarrow>
                         (case py_getitem sr ''status'' of
                            Inl ex \<Rightarrow> False
                          | Inr st \<Rightarrow>
                              st \<noteq> JStr ''ok'' \<and>
                              (case py_getitem sr ''error'' of
                                 Inl ex \<Rightarrow> False
                               | Inr err \<Rightarrow> py_getitem err ''code'' = Inr (JInt 70))))))"

section \<open>Example inputs\<close>

text \<open>Settings, an empty world, a failed envelope with a given error code and a server that
  answers every request with the same decoded body.\<close>

definition env0 :: env where
  "env0 = \<lparr>SUBSONIC_SERVER = ''s'', SUBSONIC_USER = ''u'', SUBSONIC_PASSWORD = ''p''\<rparr>"

definition world0 :: world where
  "world0 = \<lparr>files = [], requests = [], warnings = []\<rparr>"

definition failed_envelope :: "int \<Rightarrow> json" where
  "failed_envelope c =
     JObj [(''subsonic-response'',
            JObj [(''status'', JStr ''failed''),
                  (''error'', JObj [(''code'', JInt c), (''message'', JStr ''m'')])])]"

definition answer :: "json \<Rightarrow> server" where
  "answer d req = Inr \<lparr>http_status = 200, json_body = Some d, content = []\<rparr>"

text \<open>Two songs, and a guild that is playing the first with the second queued.\<close>

definition song_a :: Song where
  "song_a = \<lparr>song_id = JStr ''1'', title = JStr ''A'', album = JStr ''X'', artist = JStr ''Y'',
              cover_id = JStr ''c1'', duration = JInt 60\<rparr>"

definition song_b :: Song where
  "song_b = \<lparr>song_id = JStr ''2'', title = JStr ''B'', album = JStr ''X'', artist = JStr ''Y'',
              cover_id = JStr ''c1'', duration = JInt 90\<rparr>"

definition playing_state :: bot where
  "playing_state =
     \<lparr>heap = [song_a, song_b],
      players = [(1, \<lparr>queue = [Some 1], current_song = Some 0\<rparr>)],
      voice_clients = [(1, \<lparr>is_playing = True\<rparr>)],
      sent = []\<rparr>"

text \<open>A world whose cache holds the cover \<^verbatim>\<open>c1\<close>.\<close>

definition cached_world :: world where
  "cached_world = \<lparr>files = [(''cache/c1.jpg'', [255, 216])], requests = [], warnings = []\<rparr>"

text \<open>A random source whose every raw draw is 0.\<close>

definition zero_draws :: "nat \<Rightarrow> nat" where
  "zero_draws i = 0"

text \<open>
  A server with one artist and two albums of one song each, whose album request for the id
  \<open>bad\<close> is answered with the error 70; and the Album that a good album request gives.
\<close>

definition ok_envelope :: "string \<Rightarrow> json \<Rightarrow> json" where
  "ok_envelope member v = JObj [(''subsonic-response'', JObj [(''status'', JStr ''ok''), (member, v)])]"

definition album_body :: "json \<Rightarrow> json" where
  "album_body albumid =
     ok_envelope ''album''
       (JObj [(''id'', albumid), (''name'', JStr ''N''),
              (''song'', JArr [JObj [(''id'', JStr ''t1''), (''title'', JStr ''T'')]])])"

definition disco_server :: "json \<Rightarrow> server" where
  "disco_server bad req =
     (case req of Get url params \<Rightarrow>
        if url = ''s/rest/search3.view'' then
          answer (ok_envelope ''searchResult3''
                    (JObj [(''artist'', JArr [JObj [(''id'', JStr ''ar1'')]])])) req
        else if url = ''s/rest/getArtist.view'' then
          answer (ok_envelope ''artist''
                    (JObj [(''album'', JArr [JObj [(''id'', JStr ''al1'')],
                                             JObj [(''id'', JStr ''al2'')]])])) req
        else if url = ''s/rest/getAlbum.view'' then
          (case map_of params ''id'' of
             None \<Rightarrow> Inl ClientError
           | Some albumid \<Rightarrow>
               if albumid = bad then answer (failed_envelope 70) req
               else answer (album_body albumid) req)
        else Inl ClientError)"

definition album_x :: "json \<Rightarrow> Album" where
  "album_x albumid =
     \<lparr>album_id = albumid, album_name = JStr ''N'', album_artist = JStr ''Unknown Artist'',
      album_cover_id = JStr [], album_song_count = JInt 0, album_duration = JInt 0,
      album_year = JInt 0,
      album_songs = [\<lparr>song_id = JStr ''t1'', title = JStr ''T'', album = JStr ''Unknown Album'',
                       artist = JStr ''Unknown Artist'', cover_id = JStr [],
                       duration = JInt 0\<rparr>]\<rparr>"

section \<open>Verified properties\<close>

subsection \<open>Pagination\<close>

text \<open>Rounding to the nearest integer is off by at most a half, and exact on integers.\<close>

lemma round_half_even_err: "\<bar>of_int (round_half_even x) - x\<bar> \<le> 1 / 2"
proof -
  have "of_int \<lfloor>x\<rfloor> \<le> x" "x < of_int \<lfloor>x\<rfloor> + 1" by linarith+
  then show ?thesis
    by (auto simp: round_half_even_def Let_def)
qed

lemma round_half_even_of_int: "round_half_even (of_int n) = n"
  by (simp add: round_half_even_def)

lemma bitlen_rat_bounds:
  assumes "0 < a"
  shows "(2 :: rat) powi (bitlen a - 1) \<le> of_int a" "of_int a < (2 :: rat) powi bitlen a"
proof -
  have b: "2 ^ nat (bitlen a - 1) \<le> a" "a < 2 ^ nat (bitlen a)"
    using bitlen_bounds [OF assms] by simp_all
  have ge: "1 \<le> bitlen a"
    using assms bitlen_eq_zero_iff [of a] bitlen_nonneg [of a] by linarith
  have "(of_int (2 ^ nat (bitlen a - 1)) :: rat) \<le> of_int a"
    using b(1) of_int_le_iff by blast
  then show "(2 :: rat) powi (bitlen a - 1) \<le> of_int a"
    using ge by (simp add: power_int_nonneg_exp)
  have "(of_int a :: rat) < of_int (2 ^ nat (bitlen a))"
    using b(2) of_int_less_iff by blast
  then show "of_int a < (2 :: rat) powi bitlen a"
    using ge by (simp add: power_int_nonneg_exp)
qed

lemma floor_log2_bounds:
  assumes "0 < a" "0 < b"
  shows "(2 :: rat) powi floor_log2 a b \<le> of_int a / of_int b"
    and "of_int a / of_int b < (2 :: rat) powi (floor_log2 a b + 1)"
proof -
  let ?x = "of_int a / of_int b :: rat"
  let ?e = "bitlen a - bitlen b"
  have a: "(2 :: rat) powi (bitlen a - 1) \<le> of_int a" "of_int a < (2 :: rat) powi bitlen a"
    using bitlen_rat_bounds [OF assms(1)] by simp_all
  have b: "(2 :: rat) powi (bitlen b - 1) \<le> of_int b" "of_int b < (2 :: rat) powi bitlen b"
    using bitlen_rat_bounds [OF assms(2)] by simp_all
  have bp: "(0 :: rat) < of_int b" using assms(2) by simp
  have ap: "(0 :: rat) < of_int a" using assms(1) by simp
  have "?x < 2 powi bitlen a / 2 powi (bitlen b - 1)"
    using a(2) b(1) bp ap by (intro frac_less) simp_all
  moreover have "(2 :: rat) powi (bitlen a - (bitlen b - 1)) = 2 powi bitlen a / 2 powi (bitlen b - 1)"
    by (rule power_int_diff) simp
  moreover have "bitlen a - (bitlen b - 1) = ?e + 1" by simp
  ultimately have up: "?x < 2 powi (?e + 1)"
    by metis
  have "2 powi (bitlen a - 1) / 2 powi bitlen b < ?x"
    using a(1) b(2) bp ap by (intro frac_less2) simp_all
  moreover have "(2 :: rat) powi (bitlen a - 1 - bitlen b) = 2 powi (bitlen a - 1) / 2 powi bitlen b"
    by (rule power_int_diff) simp
  moreover have "bitlen a - 1 - bitlen b = ?e - 1" by simp
  ultimately have lo: "2 powi (?e - 1) < ?x"
    by metis
  show "(2 :: rat) powi floor_log2 a b \<le> ?x"
    using lo by (simp add: floor_log2_def Let_def)
  show "?x < (2 :: rat) powi (floor_log2 a b + 1)"
    using up by (auto simp add: floor_log2_def Let_def)
qed

lemma nearest_double_pos:
  assumes "0 < a" "0 < b"
  shows "nearest_double a b =
           of_int (round_half_even (of_int a / of_int b / 2 powi max (floor_log2 a b - 52) (- 1074)))
             * 2 powi max (floor_log2 a b - 52) (- 1074)"
  using assms by (simp add: nearest_double_def Let_def)

lemma nearest_double_err:
  assumes "0 < a" "0 < b"
  shows "\<bar>nearest_double a b - of_int a / of_int b\<bar> \<le> 2 powi max (floor_log2 a b - 52) (- 1074) / 2"
proof -
  let ?x = "of_int a / of_int b :: rat"
  let ?P = "2 powi max (floor_log2 a b - 52) (- 1074) :: rat"
  let ?m = "round_half_even (?x / ?P)"
  have P: "0 < ?P" by simp
  have "nearest_double a b - ?x = (of_int ?m - ?x / ?P) * ?P"
    using P by (simp add: nearest_double_pos [OF assms] field_simps)
  then have "\<bar>nearest_double a b - ?x\<bar> = \<bar>of_int ?m - ?x / ?P\<bar> * ?P"
    using P by (simp add: abs_mult)
  also have "\<dots> \<le> 1 / 2 * ?P"
    using round_half_even_err [of "?x / ?P"] P by (intro mult_right_mono) simp_all
  finally show ?thesis by simp
qed

lemma nearest_double_lt_one:
  assumes "0 < i" "i < k" "i < 2 ^ 53" "k < 2 ^ 1075"
  shows "0 < nearest_double i k" and "nearest_double i k < 1"
proof -
  let ?x = "of_int i / of_int k :: rat"
  let ?e = "floor_log2 i k"
  let ?p = "max (?e - 52) (- 1074)"
  let ?P = "2 powi ?p :: rat"
  let ?m = "round_half_even (?x / ?P)"
  have k0: "0 < k" using assms by simp
  have r: "nearest_double i k = of_int ?m * ?P"
    using nearest_double_pos [OF assms(1) k0] .
  have P: "0 < ?P" by simp
  have x1: "?x < 1" using assms k0 by simp
  have x0: "0 < ?x" using assms k0 by simp
  have lo: "2 powi ?e \<le> ?x" using floor_log2_bounds(1) [OF assms(1) k0] .
  have e: "?e \<le> - 1"
  proof (rule ccontr)
    assume "\<not> ?e \<le> - 1"
    then have "0 \<le> ?e" by simp
    then have "(1 :: rat) \<le> 2 powi ?e" by simp
    then show False using lo x1 by simp
  qed
  then have p53: "?p \<le> - 53" by simp
  have "?P \<le> 2 powi (- 53)"
    using p53 by (intro power_int_increasing) simp_all
  then have P54: "?P / 2 \<le> 1 / 2 ^ 54" by simp
  have half: "1 / 2 < ?x / ?P"
  proof (cases "- 1074 \<le> ?e - 52")
    case True
    then have "?P = 2 powi (?e - 52)" by simp
    also have "\<dots> = 2 powi ?e / 2 powi 52"
      by (rule power_int_diff) simp
    finally have pe: "?P = 2 powi ?e / 2 ^ 52" by simp
    have "?x / ?P = ?x / 2 powi ?e * 2 ^ 52" unfolding pe by simp
    moreover have "1 \<le> ?x / 2 powi ?e"
      using lo by (subst pos_le_divide_eq) simp_all
    ultimately show ?thesis by simp
  next
    case False
    define B :: rat where "B = 2 ^ 1074"
    have B: "0 < B" by (simp add: B_def)
    from False have "?p = - 1074" by simp
    then have xp: "?x / ?P = ?x * B" by (simp add: power_int_minus_divide B_def)
    have "(of_int k :: rat) < of_int (2 ^ 1075)" using assms(4) of_int_less_iff by blast
    then have kk: "(of_int k :: rat) < 2 * B" by (simp add: B_def)
    have "(1 :: rat) \<le> of_int i" using assms(1) by simp
    then have "1 * B \<le> of_int i * B" using B by (intro mult_right_mono) simp_all
    then have "(of_int k :: rat) < 2 * (of_int i * B)" using kk by linarith
    then have "1 / 2 < ?x * B" using k0 by (simp add: field_simps)
    then show ?thesis by (simp only: xp)
  qed
  have "\<bar>of_int ?m - ?x / ?P\<bar> \<le> 1 / 2" by (rule round_half_even_err)
  then have "(0 :: rat) < of_int ?m" using half by linarith
  then have m: "0 < ?m" by simp
  show "0 < nearest_double i k" using m P by (simp add: r)
  have err: "\<bar>nearest_double i k - ?x\<bar> \<le> ?P / 2"
    using nearest_double_err [OF assms(1) k0] .
  then have bound: "nearest_double i k \<le> ?x + 1 / 2 ^ 54"
    using P54 by linarith
  show "nearest_double i k < 1"
  proof (cases "2 * i \<le> k")
    case True
    then have "(of_int (2 * i) :: rat) \<le> of_int k" using of_int_le_iff by blast
    then have "?x \<le> 1 / 2" using k0 by (simp add: field_simps)
    moreover have "(1 :: rat) / 2 + 1 / 2 ^ 54 < 1" by simp
    ultimately show ?thesis using bound by linarith
  next
    case False
    then have "k < 2 ^ 54" using assms(3) by simp
    then have "(of_int k :: rat) < of_int (2 ^ 54)" using of_int_less_iff by blast
    then have kk: "(of_int k :: rat) < 2 ^ 54" by simp
    have "(1 :: rat) / 2 ^ 54 < 1 / of_int k"
      using kk k0 by (intro frac_less2) simp_all
    moreover have "?x \<le> 1 - 1 / of_int k"
    proof -
      have "i \<le> k - 1" using assms(2) by simp
      then have "(of_int i :: rat) \<le> of_int (k - 1)" using of_int_le_iff by blast
      then have "?x \<le> (of_int k - 1) / of_int k" using k0 by (simp add: divide_right_mono)
      then show ?thesis using k0 by (simp add: field_simps)
    qed
    ultimately show ?thesis using bound by linarith
  qed
qed

lemma nearest_double_ge_one:
  assumes "0 < k" "k \<le> i" "i < 2 ^ 53"
  shows "\<lfloor>nearest_double i k\<rfloor> = i div k" and "\<lceil>nearest_double i k\<rceil> = - ((- i) div k)"
proof -
  let ?x = "of_int i / of_int k :: rat"
  let ?e = "floor_log2 i k"
  let ?p = "max (?e - 52) (- 1074)"
  let ?P = "2 powi ?p :: rat"
  let ?m = "round_half_even (?x / ?P)"
  let ?q = "i div k"
  have i0: "0 < i" using assms by simp
  have r: "nearest_double i k = of_int ?m * ?P"
    using nearest_double_pos [OF i0 assms(1)] .
  have x1: "1 \<le> ?x" using assms by simp
  have lo: "2 powi ?e \<le> ?x" using floor_log2_bounds(1) [OF i0 assms(1)] .
  have up: "?x < 2 powi (?e + 1)" using floor_log2_bounds(2) [OF i0 assms(1)] .
  have e0: "0 \<le> ?e"
  proof (rule ccontr)
    assume "\<not> 0 \<le> ?e"
    then have "?e + 1 \<le> 0" by simp
    then have "(2 :: rat) powi (?e + 1) \<le> 2 powi 0"
      by (intro power_int_increasing) simp_all
    then show False using up x1 by simp
  qed
  have i53: "(of_int i :: rat) < 2 ^ 53"
  proof -
    have "(of_int i :: rat) < of_int (2 ^ 53)" using assms(3) of_int_less_iff by blast
    then show ?thesis by simp
  qed
  have k1: "(1 :: rat) \<le> of_int k" using assms(1) by simp
  have kpos: "(0 :: rat) < of_int k" using assms(1) by simp
  define E :: rat where "E = 2 powi ?e"
  have E: "0 < E" by (simp add: E_def)
  have kE: "of_int k * E \<le> of_int i"
    using lo kpos by (simp add: E_def field_simps)
  have e52: "?e \<le> 52"
  proof (rule ccontr)
    assume "\<not> ?e \<le> 52"
    then have "53 \<le> ?e" by simp
    then have "(2 :: rat) powi 53 \<le> 2 powi ?e"
      by (intro power_int_increasing) simp_all
    then have "(2 :: rat) ^ 53 \<le> E" by (simp add: E_def)
    moreover have "1 * E \<le> of_int k * E" using k1 E by (intro mult_right_mono) simp_all
    ultimately show False using kE i53 by linarith
  qed
  define d where "d = nat (52 - ?e)"
  have "?p = ?e - 52" using e0 by simp
  then have "?P = 2 powi (?e - 52)" by simp
  also have "\<dots> = 2 powi ?e / 2 powi 52"
    by (rule power_int_diff) simp
  finally have PE: "?P = E / 2 ^ 52" by (simp add: E_def)
  have "?e - 52 = - int d" using e52 by (simp add: d_def)
  then have "?P = 2 powi (- int d)" using \<open>?p = ?e - 52\<close> by simp
  then have Pd: "?P = 1 / 2 ^ d" by (simp add: power_int_minus_divide)
  have kP: "of_int k * (?P / 2) < 1"
  proof -
    have "of_int k * (?P / 2) = of_int k * E / 2 ^ 53" by (simp add: PE)
    also have "\<dots> \<le> of_int i / 2 ^ 53" using kE by (simp add: divide_right_mono)
    also have "\<dots> < 1" using i53 by simp
    finally show ?thesis .
  qed
  have err: "\<bar>nearest_double i k - ?x\<bar> \<le> ?P / 2"
    using nearest_double_err [OF i0 assms(1)] .
  have ik: "i = ?q * k + i mod k" by simp
  show "\<lfloor>nearest_double i k\<rfloor> = i div k" and "\<lceil>nearest_double i k\<rceil> = - ((- i) div k)"
  proof (atomize (full), cases "i mod k = 0")
    case True
    then have "i = ?q * k" using ik by simp
    then have "(of_int i :: rat) = of_int ?q * of_int k" by (metis of_int_mult)
    then have xq: "?x = of_int ?q" using kpos by simp
    have "?x / ?P = of_int (?q * 2 ^ d)" by (simp add: xq Pd)
    then have "?m = ?q * 2 ^ d" by (simp only: round_half_even_of_int)
    then have "nearest_double i k = of_int ?q" by (simp add: r Pd)
    moreover have "- ((- i) div k) = ?q"
      using True assms(1) by (simp add: zdiv_zminus1_eq_if)
    ultimately show "\<lfloor>nearest_double i k\<rfloor> = i div k \<and> \<lceil>nearest_double i k\<rceil> = - ((- i) div k)"
      by simp
  next
    case False
    have m0: "0 \<le> i mod k" "i mod k < k" using assms(1) by simp_all
    then have m1: "1 \<le> i mod k" "i mod k \<le> k - 1" using False by simp_all
    have "(of_int i :: rat) = of_int ?q * of_int k + of_int (i mod k)"
      by (metis ik of_int_add of_int_mult)
    then have xq: "?x = of_int ?q + of_int (i mod k) / of_int k"
      using kpos by (simp add: field_simps)
    have "(of_int 1 :: rat) \<le> of_int (i mod k)" using m1(1) of_int_le_iff by blast
    then have "1 / of_int k \<le> (of_int (i mod k) :: rat) / of_int k"
      using kpos by (simp add: divide_right_mono)
    then have xlo: "of_int ?q + 1 / of_int k \<le> ?x" by (simp add: xq)
    have "(of_int (i mod k) :: rat) \<le> of_int (k - 1)" using m1(2) of_int_le_iff by blast
    then have "(of_int (i mod k) :: rat) / of_int k \<le> (of_int k - 1) / of_int k"
      using kpos by (simp add: divide_right_mono)
    also have "\<dots> = 1 - 1 / of_int k" using kpos by (simp add: field_simps)
    finally have xhi: "?x \<le> of_int ?q + 1 - 1 / of_int k" by (simp add: xq)
    have "?P / 2 < 1 / of_int k" using kP kpos by (simp add: field_simps)
    then have "of_int ?q < nearest_double i k" "nearest_double i k < of_int ?q + 1"
      using err xlo xhi by linarith+
    then have "\<lfloor>nearest_double i k\<rfloor> = ?q" "\<lceil>nearest_double i k\<rceil> = ?q + 1"
      by (simp_all add: floor_unique ceiling_unique)
    moreover have "- ((- i) div k) = ?q + 1"
      using False assms(1) by (simp add: zdiv_zminus1_eq_if)
    ultimately show "\<lfloor>nearest_double i k\<rfloor> = i div k \<and> \<lceil>nearest_double i k\<rceil> = - ((- i) div k)"
      by simp
  qed
qed

lemma nearest_double_zero: "nearest_double 0 k = 0"
  by (simp add: nearest_double_def)

lemma nearest_double_exact:
  assumes "0 \<le> i" "i < 2 ^ 53" "0 < k" "k < 2 ^ 1075"
  shows "\<lfloor>nearest_double i k\<rfloor> = i div k" and "\<lceil>nearest_double i k\<rceil> = - ((- i) div k)"
    and "\<bar>nearest_double i k\<bar> < 2 ^ 1024"
proof (atomize (full), goal_cases)
  case 1
  consider "i = 0" | "0 < i" "i < k" | "k \<le> i" using assms(1) by linarith
  then show ?case
  proof cases
    case 1
    then show ?thesis by (simp add: nearest_double_zero)
  next
    case 2
    have r: "0 < nearest_double i k" "nearest_double i k < 1"
      using nearest_double_lt_one [OF 2 assms(2) assms(4)] by simp_all
    then have "\<lfloor>nearest_double i k\<rfloor> = 0" "\<lceil>nearest_double i k\<rceil> = 1"
      by (simp_all add: floor_unique ceiling_unique)
    moreover have "i div k = 0" using 2 by simp
    moreover have "- ((- i) div k) = 1"
      using 2 by (simp add: zdiv_zminus1_eq_if)
    moreover have "\<bar>nearest_double i k\<bar> < 2 ^ 1024"
    proof -
      have "(1 :: rat) \<le> 2 ^ 1024" by (rule one_le_power) simp
      then show ?thesis using r by linarith
    qed
    ultimately show ?thesis by simp
  next
    case 3
    have fc: "\<lfloor>nearest_double i k\<rfloor> = i div k" "\<lceil>nearest_double i k\<rceil> = - ((- i) div k)"
      using nearest_double_ge_one [OF assms(3) 3 assms(2)] by simp_all
    have "1 \<le> i div k" using 3 assms(3) by (simp add: pos_imp_zdiv_pos_iff less_eq_int_code int_one_le_iff_zero_less)
    then have "1 \<le> \<lfloor>nearest_double i k\<rfloor>" by (simp add: fc)
    then have lo: "0 \<le> nearest_double i k" by linarith
    have "0 < i" using 3 assms(3) by simp
    then have "i div k \<le> i" by (rule int_div_le_self)
    then have "\<lfloor>nearest_double i k\<rfloor> + 1 \<le> 2 ^ 53" using assms(2) by (simp add: fc)
    then have "(of_int (\<lfloor>nearest_double i k\<rfloor> + 1) :: rat) \<le> of_int (2 ^ 53)"
      using of_int_le_iff by blast
    moreover have "nearest_double i k < of_int (\<lfloor>nearest_double i k\<rfloor> + 1)"
      by linarith
    ultimately have "nearest_double i k < 2 ^ 53" by simp
    moreover have "(2 :: rat) ^ 53 \<le> 2 ^ 1024" by (rule power_increasing) simp_all
    ultimately have "\<bar>nearest_double i k\<bar> < 2 ^ 1024" using lo by linarith
    then show ?thesis using fc by simp
  qed
qed

lemma division_exact:
  assumes "0 \<le> i" "i < 2 ^ 53" "0 < k" "k < 2 ^ 1075"
  shows "floor_div i k = Inr (i div k)" and "ceil_div i k = Inr (- ((- i) div k))"
proof -
  have "\<not> 2 ^ 1024 \<le> \<bar>nearest_double i k\<bar>"
    using nearest_double_exact(3) [OF assms] by simp
  then have t: "true_div i k = Inr (nearest_double i k)"
    using assms(3) by (simp add: true_div_def Let_def)
  show "floor_div i k = Inr (i div k)"
    using nearest_double_exact(1) [OF assms] by (simp add: floor_div_def t exn_bind_def)
  show "ceil_div i k = Inr (- ((- i) div k))"
    using nearest_double_exact(2) [OF assms] by (simp add: ceil_div_def t exn_bind_def)
qed

lemma nearest_double_underflow:
  assumes "0 \<le> a" "a * 2 ^ 1075 \<le> b" "0 < b"
  shows "nearest_double a b = 0"
proof (cases "a = 0")
  case True
  then show ?thesis by (simp add: nearest_double_zero)
next
  case False
  then have a0: "0 < a" using assms(1) by simp
  let ?x = "of_int a / of_int b :: rat"
  let ?e = "floor_log2 a b"
  let ?p = "max (?e - 52) (- 1074)"
  let ?P = "2 powi ?p :: rat"
  define B :: rat where "B = 2 ^ 1074"
  have B: "0 < B" by (simp add: B_def)
  have bpos: "(0 :: rat) < of_int b" using assms(3) by simp
  have x0: "0 < ?x" using a0 assms(3) by simp
  have "(of_int (a * 2 ^ 1075) :: rat) \<le> of_int b" using assms(2) of_int_le_iff by blast
  then have ab: "of_int a * (2 * B) \<le> (of_int b :: rat)" by (simp add: B_def)
  then have xB: "?x * B \<le> 1 / 2" using bpos by (simp add: field_simps)
  have lo: "2 powi ?e \<le> ?x" using floor_log2_bounds(1) [OF a0 assms(3)] .
  have e: "?e < - 1074"
  proof (rule ccontr)
    assume "\<not> ?e < - 1074"
    then have "- 1074 \<le> ?e" by simp
    then have "(2 :: rat) powi (- 1074) \<le> 2 powi ?e"
      by (intro power_int_increasing) simp_all
    moreover have "(2 :: rat) powi (- 1074) = 1 / B"
      by (simp add: power_int_minus_divide B_def)
    ultimately have "1 / B \<le> ?x" using lo by linarith
    then have "1 \<le> ?x * B" using B by (simp add: field_simps)
    then show False using xB by linarith
  qed
  then have "?p = - 1074" by simp
  then have xp: "?x / ?P = ?x * B" by (simp add: power_int_minus_divide B_def)
  define y where "y = ?x * B"
  have y0: "0 < y" unfolding y_def using x0 B by (rule mult_pos_pos)
  have yh: "y \<le> 1 / 2" unfolding y_def using xB .
  have fl: "\<lfloor>y\<rfloor> = 0"
  proof (rule floor_unique)
    show "of_int 0 \<le> y" using y0 by simp
    show "y < of_int 0 + 1" using yh by simp
  qed
  have "round_half_even y = 0"
    using yh by (auto simp add: round_half_even_def Let_def fl)
  then have "round_half_even (?x * B) = 0" by (simp only: y_def)
  then have "round_half_even (?x / ?P) = 0" by (simp only: xp)
  then show ?thesis
    using nearest_double_pos [OF a0 assms(3)] by simp
qed

lemma ListPaginator_underflow:
  assumes "items \<noteq> []" "int (length items) * 2 ^ 1075 \<le> k"
  shows "ListPaginator_init items k = Inl IndexError"
proof -
  have n: "0 < int (length items)" using assms(1) by simp
  have "0 < int (length items) * 2 ^ 1075" using n by simp
  then have k: "0 < k" using assms(2) by linarith
  have "nearest_double (int (length items)) k = 0"
    using assms(2) k by (intro nearest_double_underflow) simp_all
  then have c: "ceil_div (int (length items)) k = Inr 0"
    using k by (simp add: ceil_div_def true_div_def exn_bind_def)
  have f: "floor_div 0 k = Inr 0"
    using k by (simp add: floor_div_def true_div_def exn_bind_def nearest_double_zero)
  have u: "[0 ..< length items] = 0 # [Suc 0 ..< length items]"
    using assms(1) by (simp add: upt_conv_Cons)
  show ?thesis
    by (simp add: ListPaginator_init_def c u f exn_bind_def list_index_def)
qed

lemma concat_append_at:
  assumes "q < length xs" "\<forall>j. q < j \<and> j < length xs \<longrightarrow> xs ! j = []"
  shows "concat (xs[q := xs ! q @ [x]]) = concat xs @ [x]"
proof -
  have tail: "concat (drop (Suc q) xs) = []"
    using assms(2) by (auto simp: in_set_conv_nth)
  have "concat xs = concat (take q xs) @ xs ! q @ concat (drop (Suc q) xs)"
    using id_take_nth_drop [OF assms(1)] by (metis concat.simps(2) concat_append)
  moreover have "concat (xs[q := xs ! q @ [x]]) = concat (take q xs) @ (xs ! q @ [x]) @ concat (drop (Suc q) xs)"
    using assms(1) by (simp add: upd_conv_take_nth_drop)
  ultimately show ?thesis using tail by simp
qed

lemma page_index_bound:
  assumes "0 < k" "int i < n"
  shows "0 \<le> int i div k \<and> int i div k < - ((- n) div k)"
proof -
  let ?c = "- ((- n) div k)"
  have "(- n) div k * k \<le> - n"
    using assms(1) by (metis div_mult_mod_eq pos_mod_sign add.commute le_add_same_cancel2)
  then have "n \<le> ?c * k" by simp
  moreover have "int i div k * k \<le> int i"
    using assms(1) by (metis div_mult_mod_eq pos_mod_sign add.commute le_add_same_cancel2)
  ultimately have "int i div k * k < ?c * k" using assms(2) by linarith
  then have "int i div k < ?c" using assms(1) mult_less_cancel_right_pos by blast
  moreover have "0 \<le> int i div k" using assms(1) by (simp add: pos_imp_zdiv_nonneg_iff)
  ultimately show ?thesis by simp
qed

lemma fill_pages_inv:
  assumes k: "0 < k" and kb: "k < 2 ^ 1075" and nb: "int n < 2 ^ 53"
  shows "length items = n - i \<Longrightarrow> i \<le> n \<Longrightarrow> int (length pgs) = - ((- int n) div k) \<Longrightarrow>
     (\<forall>j. nat (int i div k) < j \<and> j < length pgs \<longrightarrow> pgs ! j = []) \<Longrightarrow>
     \<exists>pgs'. fill_pages k [i ..< n] pgs items = Inr (pgs', []) \<and> length pgs' = length pgs \<and>
        concat pgs' = concat pgs @ map (\<lambda>(j, x). \<lparr>input_index = j, data = x\<rparr>) (zip [i ..< n] items)"
proof (induction items arbitrary: i pgs)
  case Nil
  then show ?case by simp
next
  case (Cons x rest)
  let ?q = "nat (int i div k)"
  let ?pgs = "pgs[?q := pgs ! ?q @ [\<lparr>input_index = i, data = x\<rparr>]]"
  from Cons.prems have lt: "i < n" by simp
  then have upt: "[i ..< n] = i # [Suc i ..< n]" by (simp add: upt_conv_Cons)
  have b: "0 \<le> int i div k \<and> int i div k < int (length pgs)"
    using page_index_bound [OF k, of i "int n"] lt Cons.prems(3) by simp
  then have q: "?q < length pgs" by linarith
  have idx: "list_index pgs (int i div k) = Inr ?q"
    using b by (simp add: list_index_def Let_def)
  have fl: "floor_div (int i) k = Inr (int i div k)"
    using lt nb by (intro division_exact(1) k kb) simp_all
  have mono: "?q \<le> nat (int (Suc i) div k)"
    using k by (simp add: zdiv_mono1 nat_mono)
  have "\<exists>pgs'. fill_pages k [Suc i ..< n] ?pgs rest = Inr (pgs', []) \<and> length pgs' = length ?pgs \<and>
        concat pgs' = concat ?pgs @ map (\<lambda>(j, x). \<lparr>input_index = j, data = x\<rparr>) (zip [Suc i ..< n] rest)"
  proof (rule Cons.IH)
    show "length rest = n - Suc i" using Cons.prems(1) by simp
    show "Suc i \<le> n" using lt by simp
    show "int (length ?pgs) = - ((- int n) div k)" using Cons.prems(3) by simp
    show "\<forall>j. nat (int (Suc i) div k) < j \<and> j < length ?pgs \<longrightarrow> ?pgs ! j = []"
      using mono Cons.prems(4) by auto
  qed
  then obtain pgs' where r: "fill_pages k [Suc i ..< n] ?pgs rest = Inr (pgs', [])"
    and l: "length pgs' = length ?pgs"
    and c: "concat pgs' = concat ?pgs @ map (\<lambda>(j, x). \<lparr>input_index = j, data = x\<rparr>) (zip [Suc i ..< n] rest)"
    by blast
  have cc: "concat ?pgs = concat pgs @ [\<lparr>input_index = i, data = x\<rparr>]"
    using concat_append_at [OF q] Cons.prems(4) by blast
  have "fill_pages k [i ..< n] pgs (x # rest) = Inr (pgs', [])"
    using r by (simp add: upt fl idx exn_bind_def)
  moreover have "concat pgs' = concat pgs @ map (\<lambda>(j, x). \<lparr>input_index = j, data = x\<rparr>) (zip [i ..< n] (x # rest))"
    using c cc by (simp add: upt)
  ultimately show ?case using l by simp
qed

lemma zip_upt_nth:
  "length xs = n \<Longrightarrow> map (\<lambda>(j, x). f j x) (zip [0 ..< n] xs) = map (\<lambda>i. f i (xs ! i)) [0 ..< n]"
  by (rule nth_equalityI) simp_all

text \<open>
  C10, as amended.  For a list of \<open>n < 2 ^ 53\<close> items and an integer
  \<open>items_per_page = k\<close> with \<open>0 < k < 2 ^ 1075\<close> the constructor returns a paginator
  with exactly \<open>\<lceil>n / k\<rceil>\<close> pages; the pages, read one after the other, hold the
  \<open>n\<close> items in their original order, each in a record whose \<open>input_index\<close> is the
  item's original position; and the caller's list is left empty.  Under these bounds the
  ceiling and the floors of the float quotients are those of the exact quotients.
\<close>

theorem ListPaginator_pages:
  assumes k: "0 < k" and kb: "k < 2 ^ 1075" and nb: "length items < 2 ^ 53"
  shows "\<exists>p. ListPaginator_init items k = Inr (p, [])
           \<and> int (length (pages p)) = \<lceil>real (length items) / real_of_int k\<rceil>
           \<and> num_pages p = \<lceil>real (length items) / real_of_int k\<rceil>
           \<and> concat (pages p) =
               map (\<lambda>i. \<lparr>input_index = i, data = items ! i\<rparr>) [0 ..< length items]"
proof -
  let ?n = "length items"
  let ?np = "- ((- int ?n) div k)"
  have ceil: "\<lceil>real ?n / real_of_int k\<rceil> = ?np"
    using ceiling_divide_eq_div [of "int ?n" k, where ?'a = real] by simp
  have nb': "int ?n < 2 ^ 53"
    using nb by (metis of_nat_less_iff of_nat_numeral of_nat_power)
  have np0: "0 \<le> ?np"
    using k by (simp add: div_nonpos_pos_le0)
  have "\<exists>pgs'. fill_pages k [0 ..< ?n] (replicate (nat ?np) []) items = Inr (pgs', []) \<and>
          length pgs' = length (replicate (nat ?np) ([] :: 'a page_entry list)) \<and>
          concat pgs' = concat (replicate (nat ?np) []) @
            map (\<lambda>(j, x). \<lparr>input_index = j, data = x\<rparr>) (zip [0 ..< ?n] items)"
    using np0 nb' by (intro fill_pages_inv [OF k kb]) simp_all
  then obtain pgs' where r: "fill_pages k [0 ..< ?n] (replicate (nat ?np) []) items = Inr (pgs', [])"
    and l: "length pgs' = nat ?np"
    and c: "concat pgs' = map (\<lambda>(j, x). \<lparr>input_index = j, data = x\<rparr>) (zip [0 ..< ?n] items)"
    by auto
  have c': "concat pgs' = map (\<lambda>i. \<lparr>input_index = i, data = items ! i\<rparr>) [0 ..< ?n]"
    using c zip_upt_nth [of items ?n "\<lambda>j x. \<lparr>input_index = j, data = x\<rparr>"] by simp
  have cd: "ceil_div (int ?n) k = Inr ?np"
    using nb' by (intro division_exact(2) k kb) simp_all
  have "ListPaginator_init items k =
          Inr (\<lparr>pages = pgs', items_per_page = k, num_pages = ?np\<rparr>, [])"
    using r by (simp add: ListPaginator_init_def cd exn_bind_def)
  then show ?thesis using l c' ceil np0 by simp
qed

text \<open>The statement at three items and two items per page.\<close>

theorem ListPaginator_pages_witness:
  "(0::int) < 2 \<and> (2::int) < 2 ^ 1075 \<and> length [''a'', ''b'', ''c''] < 2 ^ 53 \<and>
   (\<exists>p. ListPaginator_init [''a'', ''b'', ''c''] 2 = Inr (p, [])
           \<and> int (length (pages p)) = 2 \<and> num_pages p = 2
           \<and> concat (pages p) =
               [\<lparr>input_index = 0, data = ''a''\<rparr>, \<lparr>input_index = 1, data = ''b''\<rparr>,
                \<lparr>input_index = 2, data = ''c''\<rparr>])"
proof -
  have h: "(0::int) < 2" "(2::int) < 2 ^ 1075" "length [''a'', ''b'', ''c''] < 2 ^ 53"
    by simp_all
  have "\<exists>p. ListPaginator_init [''a'', ''b'', ''c''] 2 = Inr (p, [])
           \<and> int (length (pages p)) = 2 \<and> num_pages p = 2
           \<and> concat (pages p) =
               [\<lparr>input_index = 0, data = ''a''\<rparr>, \<lparr>input_index = 1, data = ''b''\<rparr>,
                \<lparr>input_index = 2, data = ''c''\<rparr>]"
    using ListPaginator_pages [OF h] by (simp add: upt_conv_Cons numeral_2_eq_2)
  then show ?thesis using h by blast
qed

text \<open>
  C10 as stated fails: with one item and \<open>items_per_page = 2 ^ 1080\<close>, which is
  positive, the float quotient \<^verbatim>\<open>1 / 2 ** 1080\<close> is \<^verbatim>\<open>0.0\<close>, so no page is created and
  \<^verbatim>\<open>self.pages[0]\<close> raises \<^verbatim>\<open>IndexError\<close>, where the claim has one page.
\<close>

theorem ListPaginator_underflow_counterexample:
  "(0 :: int) < 2 ^ 1080 \<and>
   ListPaginator_init [''a''] (2 ^ 1080)
     = (Inl IndexError :: exn + (string ListPaginator \<times> string list))"
  using ListPaginator_underflow [of "[''a'']" "2 ^ 1080"] by simp

subsection \<open>Exceptions and effects\<close>

lemma exn_bind_Inr [simp]: "exn_bind (Inr v) f = f v"
  by (simp add: exn_bind_def)

lemma exn_bind_Inl [simp]: "exn_bind (Inl e) f = Inl e"
  by (simp add: exn_bind_def)

lemma io_bind_apply:
  "io_bind m f w = (case m w of (Inl e, w') \<Rightarrow> (Inl e, w') | (Inr v, w') \<Rightarrow> f v w')"
  by (simp add: io_bind_def)

lemma io_bind_Inr: "m w = (Inr v, w') \<Longrightarrow> io_bind m f w = f v w'"
  by (simp add: io_bind_def)


lemma return_apply [simp]: "return v w = (Inr v, w)"
  by (simp add: return_def)

lemma raise_apply [simp]: "raise e w = (Inl e, w)"
  by (simp add: raise_def)

lemma lift_apply [simp]: "lift r w = (r, w)"
  by (simp add: lift_def)

lemma io_bind_lift [simp]:
  "io_bind (lift r) f w = (case r of Inl e \<Rightarrow> (Inl e, w) | Inr v \<Rightarrow> f v w)"
  by (simp add: io_bind_def lift_def split: sum.splits)

lemma io_bind_return [simp]: "io_bind (return v) f w = f v w"
  by (simp add: io_bind_def return_def)

lemma field_or_dict:
  "field_or (JObj kvs) k d = Inr (case map_of kvs k of None \<Rightarrow> d | Some v \<Rightarrow> v)"
  by (simp add: field_or_def split: option.splits)

subsection \<open>The error check\<close>

lemma check_ok:
  assumes "py_getitem d ''subsonic-response'' = Inr sr" "py_getitem sr ''status'' = Inr (JStr ''ok'')"
  shows "check_subsonic_error (Dict d) w = (Inr False, w)"
  using assms by (simp add: check_subsonic_error_def)

lemma check_failed:
  assumes "py_getitem d ''subsonic-response'' = Inr sr" "py_getitem sr ''status'' = Inr st"
    "st \<noteq> JStr ''ok''" "py_getitem sr ''error'' = Inr err" "py_getitem err ''code'' = Inr code"
  shows "check_subsonic_error (Dict d) w = match_err_code code w"
  using assms by (simp add: check_subsonic_error_def)

lemma check_Response:
  "json_body r = Some d \<Longrightarrow> check_subsonic_error (Response r) = check_subsonic_error (Dict d)"
  by (simp add: check_subsonic_error_def)

lemma check_Response_undecodable:
  "json_body r = None \<Longrightarrow> check_subsonic_error (Response r) w = (Inr False, w)"
  by (simp add: check_subsonic_error_def)

lemma match_not_found:
  "match_err_code (JInt 70) w =
     (Inr True,
      w\<lparr>warnings := warnings w @
          [(''Subsonic API request responded with error code %s: %s'',
            [JInt 70, JStr ''The requested data was not found.''])]\<rparr>)"
  by (simp add: match_err_code_def io_bind_def logger_warning_def)

lemma match_fatal:
  assumes "(c, m) \<in> set [(0, ''Generic Error.''),
             (10, ''Required Parameter Missing.''),
             (20, ''Incompatible Subsonic REST protocol version. Client must upgrade.''),
             (30, ''Incompatible Subsonic REST protocol version. Server must upgrade.''),
             (40, ''Wrong username or password.''),
             (41, ''Token authentication not supported for LDAP users.''),
             (50, ''User is not authorized for the given operation.''),
             (60, ''The trial period for the Subsonic server is over.'')]"
  shows "match_err_code (JInt c) w = (Inl (APIError (JInt c) m), w)"
  using assms by (auto simp: match_err_code_def)

lemma match_unknown:
  assumes "c \<notin> {0, 10, 20, 30, 40, 41, 50, 60, 70}"
  shows "match_err_code (JInt c) w = (Inl (APIError (JInt c) ''Unknown Error Code.''), w)"
  using assms by (simp add: match_err_code_def)

lemma match_other_raises:
  assumes "c \<noteq> 70"
  shows "\<exists>m. match_err_code (JInt c) w = (Inl (APIError (JInt c) m), w)"
proof (cases "c \<in> {0, 10, 20, 30, 40, 41, 50, 60}")
  case True
  then show ?thesis by (auto simp: match_err_code_def)
next
  case False
  then show ?thesis using assms match_unknown [of c w] by auto
qed

text \<open>
  C2.  For a response envelope, given decoded or as the response that carries it: with status
  \<^verbatim>\<open>ok\<close> the check returns \<open>False\<close> and raises nothing.  With any other status and a
  numeric error code \<open>c\<close>: for \<open>c\<close> among 0, 10, 20, 30, 40, 41, 50, 60 it raises
  \<open>APIError\<close> with the code and the message of that code; for \<open>c = 70\<close> it logs a warning
  and returns \<open>True\<close> without raising; for every other code it raises \<open>APIError\<close> with the
  code and the message \<^verbatim>\<open>Unknown Error Code.\<close>
\<close>

theorem check_subsonic_error_taxonomy:
  assumes "response = Dict d \<or> (\<exists>r. response = Response r \<and> json_body r = Some d)"
    and "py_getitem d ''subsonic-response'' = Inr sr"
    and "py_getitem sr ''status'' = Inr st"
  shows "(st = JStr ''ok'' \<longrightarrow> check_subsonic_error response w = (Inr False, w)) \<and>
         (st \<noteq> JStr ''ok'' \<and> py_getitem sr ''error'' = Inr err \<and>
          py_getitem err ''code'' = Inr (JInt c) \<longrightarrow>
            ((c, m) \<in> set [(0, ''Generic Error.''),
                (10, ''Required Parameter Missing.''),
                (20, ''Incompatible Subsonic REST protocol version. Client must upgrade.''),
                (30, ''Incompatible Subsonic REST protocol version. Server must upgrade.''),
                (40, ''Wrong username or password.''),
                (41, ''Token authentication not supported for LDAP users.''),
                (50, ''User is not authorized for the given operation.''),
                (60, ''The trial period for the Subsonic server is over.'')] \<longrightarrow>
               check_subsonic_error response w = (Inl (APIError (JInt c) m), w)) \<and>
            (c = 70 \<longrightarrow>
               check_subsonic_error response w =
                 (Inr True,
                  w\<lparr>warnings := warnings w @
                      [(''Subsonic API request responded with error code %s: %s'',
                        [JInt 70, JStr ''The requested data was not found.''])]\<rparr>)) \<and>
            (c \<notin> {0, 10, 20, 30, 40, 41, 50, 60, 70} \<longrightarrow>
               check_subsonic_error response w =
                 (Inl (APIError (JInt c) ''Unknown Error Code.''), w)))"
proof -
  have eq: "check_subsonic_error response = check_subsonic_error (Dict d)"
    using assms(1) check_Response by auto
  show ?thesis
  proof (intro conjI impI)
    assume "st = JStr ''ok''"
    then show "check_subsonic_error response w = (Inr False, w)"
      using check_ok [of d sr] assms(2,3) eq by simp
  next
    assume f: "st \<noteq> JStr ''ok'' \<and> py_getitem sr ''error'' = Inr err \<and>
          py_getitem err ''code'' = Inr (JInt c)"
    then have m: "check_subsonic_error response w = match_err_code (JInt c) w"
      using check_failed [of d sr st err "JInt c"] assms(2,3) eq by simp
    {
      assume "(c, m) \<in> set [(0, ''Generic Error.''),
                (10, ''Required Parameter Missing.''),
                (20, ''Incompatible Subsonic REST protocol version. Client must upgrade.''),
                (30, ''Incompatible Subsonic REST protocol version. Server must upgrade.''),
                (40, ''Wrong username or password.''),
                (41, ''Token authentication not supported for LDAP users.''),
                (50, ''User is not authorized for the given operation.''),
                (60, ''The trial period for the Subsonic server is over.'')]"
      then show "check_subsonic_error response w = (Inl (APIError (JInt c) m), w)"
        using match_fatal [of c m] m by simp
    next
      assume "c = 70"
      then show "check_subsonic_error response w =
                 (Inr True,
                  w\<lparr>warnings := warnings w @
                      [(''Subsonic API request responded with error code %s: %s'',
                        [JInt 70, JStr ''The requested data was not found.''])]\<rparr>)"
        using match_not_found m by simp
    next
      assume "c \<notin> {0, 10, 20, 30, 40, 41, 50, 60, 70}"
      then show "check_subsonic_error response w =
                 (Inl (APIError (JInt c) ''Unknown Error Code.''), w)"
        using match_unknown [of c] m by simp
    }
  qed
qed

text \<open>The statement at failed envelopes with the codes 40, 70 and 99.\<close>

theorem check_subsonic_error_taxonomy_witness:
  "check_subsonic_error (Dict (failed_envelope 40)) world0 =
     (Inl (APIError (JInt 40) ''Wrong username or password.''), world0) \<and>
   check_subsonic_error (Dict (failed_envelope 70)) world0 =
     (Inr True,
      world0\<lparr>warnings := warnings world0 @
          [(''Subsonic API request responded with error code %s: %s'',
            [JInt 70, JStr ''The requested data was not found.''])]\<rparr>) \<and>
   check_subsonic_error (Dict (failed_envelope 99)) world0 =
     (Inl (APIError (JInt 99) ''Unknown Error Code.''), world0)"
  using check_subsonic_error_taxonomy
      [of "Dict (failed_envelope 40)" "failed_envelope 40"
          "JObj [(''status'', JStr ''failed''),
                 (''error'', JObj [(''code'', JInt 40), (''message'', JStr ''m'')])]"
          "JStr ''failed''" world0
          "JObj [(''code'', JInt 40), (''message'', JStr ''m'')]" 40
          "''Wrong username or password.''"]
    check_subsonic_error_taxonomy
      [of "Dict (failed_envelope 70)" "failed_envelope 70"
          "JObj [(''status'', JStr ''failed''),
                 (''error'', JObj [(''code'', JInt 70), (''message'', JStr ''m'')])]"
          "JStr ''failed''" world0
          "JObj [(''code'', JInt 70), (''message'', JStr ''m'')]" 70 "''''"]
    check_subsonic_error_taxonomy
      [of "Dict (failed_envelope 99)" "failed_envelope 99"
          "JObj [(''status'', JStr ''failed''),
                 (''error'', JObj [(''code'', JInt 99), (''message'', JStr ''m'')])]"
          "JStr ''failed''" world0
          "JObj [(''code'', JInt 99), (''message'', JStr ''m'')]" 99 "''''"]
  by (simp add: failed_envelope_def)

subsection \<open>The stop command\<close>

lemma guild_player_set [simp]: "guild_player (set_guild_player g p st) g = p"
  by (simp add: guild_player_def set_guild_player_def update_conv')

lemma guild_player_send [simp]: "guild_player (send m st) g = guild_player st g"
  by (simp add: guild_player_def send_def)

lemma stop_connected:
  assumes "map_of (voice_clients st) g = Some vc"
  shows "guild_player (stop g st) g =
           \<lparr>queue = None # queue (guild_player st g), current_song = None\<rparr>"
  using assms
  by (simp add: stop_def Let_def guild_player_def set_guild_player_def send_def update_conv')

text \<open>
  C1.  The claim is that stopping a guild that plays track \<open>t\<close> puts \<open>t\<close> back at the head of
  the queue.  The command clears \<open>current_song\<close> first and inserts what it reads from
  \<open>current_song\<close> afterwards: in a guild that plays song 0 with song 1 queued, the queue
  after \<open>stop\<close> is \<^verbatim>\<open>None\<close> followed by song 1, and song 0 is neither current nor queued.
\<close>

theorem stop_loses_current_track:
  "guild_player playing_state 1 = \<lparr>queue = [Some 1], current_song = Some 0\<rparr> \<and>
   guild_player (stop 1 playing_state) 1 = \<lparr>queue = [None, Some 1], current_song = None\<rparr>"
  by (simp add: stop_def playing_state_def guild_player_def set_guild_player_def send_def)

subsection \<open>Search\<close>

lemma fetch_json_good:
  assumes "srv req = Inr resp" "http_status resp < 400" "json_body resp = Some d"
  shows "fetch_json srv req w = (Inr d, w\<lparr>requests := requests w @ [req]\<rparr>)"
  using assms
  by (simp add: fetch_json_def session_get_def io_bind_def raise_for_status_def response_json_def)

lemma collect_absent:
  "collect (JObj []) k init = Inr []"
  by (simp add: collect_def)

lemma error_member_present:
  assumes "py_getitem d ''subsonic-response'' = Inr (JObj sr)" "map_of sr ''error'' = Some err"
  shows "error_member d k = py_getitem err k"
  using assms by (simp add: error_member_def)

text \<open>
  C3, as amended.  \<open>search\<close> never consults the error check.  When the server answers the
  search request with a decodable body whose envelope carries a status and an error with a
  code and a message, whatever the status and whatever the code (the fatal ones and 70
  alike), and no \<^verbatim>\<open>searchResult3\<close> member, \<open>search\<close> raises nothing: it returns a
  \<open>SearchResults\<close> that records the status, the error code and the error message and whose
  lists of songs, albums and artists are empty.
\<close>

theorem search_returns_envelope:
  assumes "srv (search_request e query ac ao alc alo sc so) = Inr resp"
    and "http_status resp < 400"
    and "json_body resp = Some d"
    and "py_getitem d ''subsonic-response'' = Inr (JObj sr)"
    and "map_of sr ''status'' = Some st"
    and "map_of sr ''error'' = Some err"
    and "py_getitem err ''code'' = Inr c"
    and "py_getitem err ''message'' = Inr m"
    and "map_of sr ''searchResult3'' = None"
  shows "search e srv query ac ao alc alo sc so w =
           (Inr \<lparr>raw_response = d, status = st, error_code = c, error_message = m,
                 songs = [], albums = [], artists = []\<rparr>,
            w\<lparr>requests := requests w @ [search_request e query ac ao alc alo sc so]\<rparr>)"
proof -
  have "SearchResults_init d =
          Inr \<lparr>raw_response = d, status = st, error_code = c, error_message = m,
               songs = [], albums = [], artists = []\<rparr>"
    using assms(4-9)
    by (simp add: SearchResults_init_def error_member_present [OF assms(4,6)] collect_absent)
  then show ?thesis
    using fetch_json_good [of srv "search_request e query ac ao alc alo sc so" resp d w] assms(1-3)
    by (simp add: search_def io_bind_Inr)
qed

text \<open>The statement at a failed envelope with code 40.\<close>

theorem search_returns_envelope_witness:
  "search env0 (answer (failed_envelope 40)) ''q'' 0 0 0 0 1 0 world0 =
     (Inr \<lparr>raw_response = failed_envelope 40, status = JStr ''failed'', error_code = JInt 40,
           error_message = JStr ''m'', songs = [], albums = [], artists = []\<rparr>,
      world0\<lparr>requests := requests world0 @ [search_request env0 ''q'' 0 0 0 0 1 0]\<rparr>)"
  using search_returns_envelope
     [of "answer (failed_envelope 40)" env0 "''q''" 0 0 0 0 1 0
         "\<lparr>http_status = 200, json_body = Some (failed_envelope 40), content = []\<rparr>"
         "failed_envelope 40"
         "[(''status'', JStr ''failed''),
           (''error'', JObj [(''code'', JInt 40), (''message'', JStr ''m'')])]"
         "JStr ''failed''" "JObj [(''code'', JInt 40), (''message'', JStr ''m'')]"
         "JInt 40" "JStr ''m''" world0]
  by (simp add: answer_def failed_envelope_def)

text \<open>
  C3 as stated fails: on a failed envelope with the fatal code 40 (wrong credentials)
  \<open>search\<close> returns a result where the claim has it raise \<open>APIError\<close>.
\<close>

theorem search_fatal_code_counterexample:
  "fst (search env0 (answer (failed_envelope 40)) ''q'' 0 0 0 0 1 0 world0) =
     Inr \<lparr>raw_response = failed_envelope 40, status = JStr ''failed'', error_code = JInt 40,
          error_message = JStr ''m'', songs = [], albums = [], artists = []\<rparr>"
  by (simp add: search_def fetch_json_def session_get_def io_bind_def answer_def
      raise_for_status_def response_json_def SearchResults_init_def error_member_def
      collect_def failed_envelope_def)

subsection \<open>Random and similar songs\<close>

lemma get_random_songs_checked:
  assumes "srv (random_songs_request e sz g fy ty mf) = Inr resp"
    and "http_status resp < 400" and "json_body resp = Some d"
    and "check_subsonic_error (Dict d) (w\<lparr>requests := requests w @ [random_songs_request e sz g fy ty mf]\<rparr>) = (r, w')"
  shows "fst (get_random_songs e srv sz g fy ty mf w) =
           (case r of Inl ex \<Rightarrow> Inl ex
            | Inr err \<Rightarrow> if err then Inr []
                else exn_bind (py_getitem d ''subsonic-response'') (\<lambda>sr.
                     exn_bind (py_getitem sr ''randomSongs'') songs_of_member))"
  using assms
    fetch_json_good [of srv "random_songs_request e sz g fy ty mf" resp d w]
  by (simp add: get_random_songs_def io_bind_apply split: sum.splits)

lemma get_similar_songs_checked:
  assumes "s \<noteq> JNull" "srv (similar_songs_request e s n) = Inr resp"
    and "http_status resp < 400" and "json_body resp = Some d"
    and "check_subsonic_error (Dict d) (w\<lparr>requests := requests w @ [similar_songs_request e s n]\<rparr>) = (r, w')"
  shows "fst (get_similar_songs e srv s n w) =
           (case r of Inl ex \<Rightarrow> Inl ex
            | Inr err \<Rightarrow> if err then Inr []
                else (case exn_bind (py_getitem d ''subsonic-response'') (\<lambda>sr.
                             py_getitem sr ''similarSongs'') of
                        Inl ex \<Rightarrow> Inl ex
                      | Inr similar \<Rightarrow> if similar = JObj [] then Inr [] else songs_of_member similar))"
  using assms
    fetch_json_good [of srv "similar_songs_request e s n" resp d w]
  by (simp add: get_similar_songs_def io_bind_apply split: sum.splits)

text \<open>
  C7, as amended.  \<open>get_similar_songs\<close> with \<^verbatim>\<open>None\<close> as the track id returns the empty list
  and issues no request.  When the server answers with a failed envelope, both operations
  return the empty list if the error code is 70 and raise \<open>APIError\<close> with the code if it is
  any other number.  When the envelope is \<^verbatim>\<open>ok\<close> and its \<^verbatim>\<open>similarSongs\<close> member is the
  empty object, \<open>get_similar_songs\<close> returns the empty list.
\<close>

theorem autoplay_sources_soft_conditions:
  assumes "http_status resp < 400" and "json_body resp = Some d"
    and "py_getitem d ''subsonic-response'' = Inr sr"
    and "py_getitem sr ''status'' = Inr st"
  shows "get_similar_songs e srv JNull n w = (Inr [], w) \<and>
         (st \<noteq> JStr ''ok'' \<and> py_getitem sr ''error'' = Inr err \<and>
          py_getitem err ''code'' = Inr (JInt c) \<longrightarrow>
            (srv (random_songs_request e sz g fy ty mf) = Inr resp \<longrightarrow>
               (c = 70 \<longrightarrow> fst (get_random_songs e srv sz g fy ty mf w) = Inr []) \<and>
               (c \<noteq> 70 \<longrightarrow>
                  (\<exists>m. fst (get_random_songs e srv sz g fy ty mf w) = Inl (APIError (JInt c) m)))) \<and>
            (s \<noteq> JNull \<and> srv (similar_songs_request e s n) = Inr resp \<longrightarrow>
               (c = 70 \<longrightarrow> fst (get_similar_songs e srv s n w) = Inr []) \<and>
               (c \<noteq> 70 \<longrightarrow>
                  (\<exists>m. fst (get_similar_songs e srv s n w) = Inl (APIError (JInt c) m))))) \<and>
         (st = JStr ''ok'' \<and> py_getitem sr ''similarSongs'' = Inr (JObj []) \<and>
          s \<noteq> JNull \<and> srv (similar_songs_request e s n) = Inr resp \<longrightarrow>
            fst (get_similar_songs e srv s n w) = Inr [])"
proof (intro conjI impI)
  show "get_similar_songs e srv JNull n w = (Inr [], w)"
    by (simp add: get_similar_songs_def)
next
  assume f: "st \<noteq> JStr ''ok'' \<and> py_getitem sr ''error'' = Inr err \<and>
          py_getitem err ''code'' = Inr (JInt c)"
    and r: "srv (random_songs_request e sz g fy ty mf) = Inr resp"
    and c: "c = 70"
  let ?w = "w\<lparr>requests := requests w @ [random_songs_request e sz g fy ty mf]\<rparr>"
  have "check_subsonic_error (Dict d) ?w = match_err_code (JInt 70) ?w"
    using check_failed [of d sr st err "JInt c" ?w] assms(3,4) f c by simp
  then show "fst (get_random_songs e srv sz g fy ty mf w) = Inr []"
    using get_random_songs_checked [where srv=srv and e=e and sz=sz and g=g and fy=fy and ty=ty and mf=mf
        and resp=resp and d=d and w=w] r assms(1,2) match_not_found [of ?w] by simp
next
  assume f: "st \<noteq> JStr ''ok'' \<and> py_getitem sr ''error'' = Inr err \<and>
          py_getitem err ''code'' = Inr (JInt c)"
    and r: "srv (random_songs_request e sz g fy ty mf) = Inr resp"
    and c: "c \<noteq> 70"
  let ?w = "w\<lparr>requests := requests w @ [random_songs_request e sz g fy ty mf]\<rparr>"
  obtain m where "match_err_code (JInt c) ?w = (Inl (APIError (JInt c) m), ?w)"
    using match_other_raises [OF c] by blast
  then have "check_subsonic_error (Dict d) ?w = (Inl (APIError (JInt c) m), ?w)"
    using check_failed [of d sr st err "JInt c" ?w] assms(3,4) f by simp
  then have "fst (get_random_songs e srv sz g fy ty mf w) = Inl (APIError (JInt c) m)"
    using get_random_songs_checked [where srv=srv and e=e and sz=sz and g=g and fy=fy and ty=ty and mf=mf
        and resp=resp and d=d and w=w] r assms(1,2) by simp
  then show "\<exists>m. fst (get_random_songs e srv sz g fy ty mf w) = Inl (APIError (JInt c) m)"
    by blast
next
  assume f: "st \<noteq> JStr ''ok'' \<and> py_getitem sr ''error'' = Inr err \<and>
          py_getitem err ''code'' = Inr (JInt c)"
    and r: "s \<noteq> JNull \<and> srv (similar_songs_request e s n) = Inr resp"
    and c: "c = 70"
  let ?w = "w\<lparr>requests := requests w @ [similar_songs_request e s n]\<rparr>"
  have "check_subsonic_error (Dict d) ?w = match_err_code (JInt 70) ?w"
    using check_failed [of d sr st err "JInt c" ?w] assms(3,4) f c by simp
  then show "fst (get_similar_songs e srv s n w) = Inr []"
    using get_similar_songs_checked [where srv=srv and e=e and s=s and n=n and resp=resp and d=d and w=w] r assms(1,2) match_not_found [of ?w]
    by simp
next
  assume f: "st \<noteq> JStr ''ok'' \<and> py_getitem sr ''error'' = Inr err \<and>
          py_getitem err ''code'' = Inr (JInt c)"
    and r: "s \<noteq> JNull \<and> srv (similar_songs_request e s n) = Inr resp"
    and c: "c \<noteq> 70"
  let ?w = "w\<lparr>requests := requests w @ [similar_songs_request e s n]\<rparr>"
  obtain m where "match_err_code (JInt c) ?w = (Inl (APIError (JInt c) m), ?w)"
    using match_other_raises [OF c] by blast
  then have "check_subsonic_error (Dict d) ?w = (Inl (APIError (JInt c) m), ?w)"
    using check_failed [of d sr st err "JInt c" ?w] assms(3,4) f by simp
  then have "fst (get_similar_songs e srv s n w) = Inl (APIError (JInt c) m)"
    using get_similar_songs_checked [where srv=srv and e=e and s=s and n=n and resp=resp and d=d and w=w] r assms(1,2) by simp
  then show "\<exists>m. fst (get_similar_songs e srv s n w) = Inl (APIError (JInt c) m)"
    by blast
next
  assume a: "st = JStr ''ok'' \<and> py_getitem sr ''similarSongs'' = Inr (JObj []) \<and>
          s \<noteq> JNull \<and> srv (similar_songs_request e s n) = Inr resp"
  let ?w = "w\<lparr>requests := requests w @ [similar_songs_request e s n]\<rparr>"
  have "check_subsonic_error (Dict d) ?w = (Inr False, ?w)"
    using check_ok [of d sr ?w] assms(3,4) a by simp
  then show "fst (get_similar_songs e srv s n w) = Inr []"
    using get_similar_songs_checked [where srv=srv and e=e and s=s and n=n and resp=resp and d=d and w=w] a assms(1-3) by simp
qed

text \<open>The statement at a failed envelope with code 70.\<close>

theorem autoplay_sources_soft_conditions_witness:
  "get_similar_songs env0 (answer (failed_envelope 70)) JNull 1 world0 = (Inr [], world0) \<and>
   fst (get_random_songs env0 (answer (failed_envelope 70)) JNull JNull JNull JNull JNull world0)
     = Inr [] \<and>
   fst (get_similar_songs env0 (answer (failed_envelope 70)) (JStr ''7'') 1 world0) = Inr []"
  using autoplay_sources_soft_conditions
     [where resp="\<lparr>http_status = 200, json_body = Some (failed_envelope 70), content = []\<rparr>"
        and d="failed_envelope 70"
        and sr="JObj [(''status'', JStr ''failed''),
                (''error'', JObj [(''code'', JInt 70), (''message'', JStr ''m'')])]"
        and st="JStr ''failed''" and e=env0 and srv="answer (failed_envelope 70)" and n=1
        and w=world0 and err="JObj [(''code'', JInt 70), (''message'', JStr ''m'')]" and c=70
        and sz=JNull and g=JNull and fy=JNull and ty=JNull and mf=JNull and s="JStr ''7''"]
  by (simp add: answer_def failed_envelope_def)

text \<open>
  C7 as stated fails: when the server reports the error 40, \<open>get_random_songs\<close> raises
  \<open>APIError\<close> where the claim has it return the empty list.
\<close>

theorem random_songs_fatal_code_counterexample:
  "fst (get_random_songs env0 (answer (failed_envelope 40)) JNull JNull JNull JNull JNull world0)
     = Inl (APIError (JInt 40) ''Wrong username or password.'')"
  by (simp add: get_random_songs_def fetch_json_def session_get_def io_bind_def answer_def
      raise_for_status_def response_json_def check_subsonic_error_def match_err_code_def
      failed_envelope_def)

subsection \<open>Cover art\<close>

lemma cover_art_miss:
  assumes "map_of (files w) (''cache/'' @ cid @ ''.jpg'') = None"
    and "srv (cover_art_request e cid sz) = Inr resp"
    and "check_subsonic_error (Response resp)
           (w\<lparr>requests := requests w @ [cover_art_request e cid sz]\<rparr>) = (r, w')"
  shows "get_album_art_file e srv cid sz w =
           (case r of Inl ex \<Rightarrow> (Inl ex, w')
            | Inr err \<Rightarrow>
                if err \<or> http_status resp \<noteq> 200 then (Inr ''resources/cover_not_found.jpg'', w')
                else (Inr (''cache/'' @ cid @ ''.jpg''),
                      w'\<lparr>files := (''cache/'' @ cid @ ''.jpg'', content resp) # files w'\<rparr>))"
  using assms
  by (simp add: get_album_art_file_def Let_def io_bind_apply path_exists_def session_get_def
      write_bytes_def split: sum.splits)

text \<open>
  C6, as amended.  When the cache holds a file for the cover id, the operation returns the
  path of that file and leaves the world as it is: no request is issued.  On a miss, with a
  response from the server: a body that is not JSON gives the fallback path when the HTTP
  status is not 200, and with status 200 the body is written to the cache and its path
  returned; a failed envelope with code 70 gives the fallback path and writes nothing; a
  failed envelope with any other numeric code raises \<open>APIError\<close>.
\<close>

theorem cover_art_cache_and_fallback:
  "(map_of (files w) (''cache/'' @ cid @ ''.jpg'') \<noteq> None \<longrightarrow>
      get_album_art_file e srv cid sz w = (Inr (''cache/'' @ cid @ ''.jpg''), w)) \<and>
   (map_of (files w) (''cache/'' @ cid @ ''.jpg'') = None \<and>
    srv (cover_art_request e cid sz) = Inr resp \<longrightarrow>
      (json_body resp = None \<and> http_status resp \<noteq> 200 \<longrightarrow>
         get_album_art_file e srv cid sz w =
           (Inr ''resources/cover_not_found.jpg'',
            w\<lparr>requests := requests w @ [cover_art_request e cid sz]\<rparr>)) \<and>
      (json_body resp = None \<and> http_status resp = 200 \<longrightarrow>
         get_album_art_file e srv cid sz w =
           (Inr (''cache/'' @ cid @ ''.jpg''),
            w\<lparr>requests := requests w @ [cover_art_request e cid sz],
              files := (''cache/'' @ cid @ ''.jpg'', content resp) # files w\<rparr>)) \<and>
      (json_body resp = Some d \<and> py_getitem d ''subsonic-response'' = Inr sr \<and>
       py_getitem sr ''status'' = Inr st \<and> st \<noteq> JStr ''ok'' \<and>
       py_getitem sr ''error'' = Inr err \<and> py_getitem err ''code'' = Inr (JInt c) \<longrightarrow>
         (c = 70 \<longrightarrow>
            fst (get_album_art_file e srv cid sz w) = Inr ''resources/cover_not_found.jpg'' \<and>
            files (snd (get_album_art_file e srv cid sz w)) = files w) \<and>
         (c \<noteq> 70 \<longrightarrow>
            (\<exists>m. fst (get_album_art_file e srv cid sz w) = Inl (APIError (JInt c) m)))))"
proof (intro conjI impI)
  assume "map_of (files w) (''cache/'' @ cid @ ''.jpg'') \<noteq> None"
  then show "get_album_art_file e srv cid sz w = (Inr (''cache/'' @ cid @ ''.jpg''), w)"
    by (simp add: get_album_art_file_def Let_def io_bind_apply path_exists_def)
next
  let ?w = "w\<lparr>requests := requests w @ [cover_art_request e cid sz]\<rparr>"
  assume miss: "map_of (files w) (''cache/'' @ cid @ ''.jpg'') = None \<and>
    srv (cover_art_request e cid sz) = Inr resp"
  {
    assume a: "json_body resp = None \<and> http_status resp \<noteq> 200"
    then have "check_subsonic_error (Response resp) ?w = (Inr False, ?w)"
      by (simp add: check_Response_undecodable)
    then show "get_album_art_file e srv cid sz w = (Inr ''resources/cover_not_found.jpg'', ?w)"
      using cover_art_miss [of w cid srv e sz resp "Inr False" ?w] miss a by simp
  next
    assume a: "json_body resp = None \<and> http_status resp = 200"
    then have "check_subsonic_error (Response resp) ?w = (Inr False, ?w)"
      by (simp add: check_Response_undecodable)
    then show "get_album_art_file e srv cid sz w =
           (Inr (''cache/'' @ cid @ ''.jpg''),
            w\<lparr>requests := requests w @ [cover_art_request e cid sz],
              files := (''cache/'' @ cid @ ''.jpg'', content resp) # files w\<rparr>)"
      using cover_art_miss [of w cid srv e sz resp "Inr False" ?w] miss a by simp
  next
    assume f: "json_body resp = Some d \<and> py_getitem d ''subsonic-response'' = Inr sr \<and>
       py_getitem sr ''status'' = Inr st \<and> st \<noteq> JStr ''ok'' \<and>
       py_getitem sr ''error'' = Inr err \<and> py_getitem err ''code'' = Inr (JInt c)"
    then have m: "check_subsonic_error (Response resp) ?w = match_err_code (JInt c) ?w"
      using check_Response [of resp d] check_failed [of d sr st err "JInt c" ?w] by simp
    {
      assume c: "c = 70"
      have r: "get_album_art_file e srv cid sz w =
              (Inr ''resources/cover_not_found.jpg'',
               ?w\<lparr>warnings := warnings ?w @
                  [(''Subsonic API request responded with error code %s: %s'',
                    [JInt 70, JStr ''The requested data was not found.''])]\<rparr>)"
        using cover_art_miss [of w cid srv e sz resp "Inr True"] miss m c match_not_found [of ?w]
        by simp
      show "fst (get_album_art_file e srv cid sz w) = Inr ''resources/cover_not_found.jpg''"
        using r by simp
      show "files (snd (get_album_art_file e srv cid sz w)) = files w"
        using r by simp
    next
      assume c: "c \<noteq> 70"
      obtain msg where "match_err_code (JInt c) ?w = (Inl (APIError (JInt c) msg), ?w)"
        using match_other_raises [OF c] by blast
      then have "get_album_art_file e srv cid sz w = (Inl (APIError (JInt c) msg), ?w)"
        using cover_art_miss [of w cid srv e sz resp "Inl (APIError (JInt c) msg)" ?w] miss m
        by simp
      then show "\<exists>m. fst (get_album_art_file e srv cid sz w) = Inl (APIError (JInt c) m)"
        by auto
    }
  }
qed

text \<open>The statement at a cached cover, and at a missing cover with a code 70 answer.\<close>

theorem cover_art_cache_and_fallback_witness:
  "get_album_art_file env0 (answer (failed_envelope 70)) ''c1'' 300 cached_world =
     (Inr ''cache/c1.jpg'', cached_world) \<and>
   fst (get_album_art_file env0 (answer (failed_envelope 70)) ''c2'' 300 cached_world) =
     Inr ''resources/cover_not_found.jpg'' \<and>
   files (snd (get_album_art_file env0 (answer (failed_envelope 70)) ''c2'' 300 cached_world)) =
     files cached_world"
  using cover_art_cache_and_fallback
     [where w=cached_world and cid="''c1''" and srv="answer (failed_envelope 70)" and e=env0
        and sz=300]
    cover_art_cache_and_fallback
     [where w=cached_world and cid="''c2''" and srv="answer (failed_envelope 70)" and e=env0
        and sz=300
        and resp="\<lparr>http_status = 200, json_body = Some (failed_envelope 70), content = []\<rparr>"
        and d="failed_envelope 70"
        and sr="JObj [(''status'', JStr ''failed''),
                (''error'', JObj [(''code'', JInt 70), (''message'', JStr ''m'')])]"
        and st="JStr ''failed''"
        and err="JObj [(''code'', JInt 70), (''message'', JStr ''m'')]" and c=70]
  by (simp add: answer_def failed_envelope_def cached_world_def)

text \<open>
  C6 as stated fails: a fetch that the server refuses with the error 40 raises
  \<open>APIError\<close> where the claim has the fallback path returned.
\<close>

theorem cover_art_fatal_code_counterexample:
  "fst (get_album_art_file env0 (answer (failed_envelope 40)) ''c2'' 300 cached_world) =
     Inl (APIError (JInt 40) ''Wrong username or password.'')"
  by (simp add: get_album_art_file_def Let_def path_exists_def session_get_def io_bind_def
      answer_def check_subsonic_error_def match_err_code_def failed_envelope_def
      cached_world_def)

subsection \<open>The shuffle command\<close>

lemma randint_in_range: "0 < n \<Longrightarrow> randint 0 (n - 1) r < n"
  by (simp add: randint_def)

lemma mset_pop:
  assumes "k < length xs"
  shows "mset (take k xs @ drop (Suc k) xs) + {#xs ! k#} = mset xs"
proof -
  have "mset xs = mset (take k xs @ xs ! k # drop (Suc k) xs)"
    using id_take_nth_drop [OF assms] by simp
  then show ?thesis by simp
qed

lemma shuffle_loop_mset:
  "mset (shuffle_loop rng i temporaryqueue shuffledqueue) =
     mset shuffledqueue + mset temporaryqueue"
proof (induction rng i temporaryqueue shuffledqueue rule: shuffle_loop.induct)
  case (1 rng i temporaryqueue shuffledqueue)
  show ?case
  proof (cases "0 < length temporaryqueue")
    case True
    let ?k = "randint 0 (length temporaryqueue - 1) (rng i)"
    have k: "?k < length temporaryqueue"
      using True by (rule randint_in_range)
    have "mset (shuffle_loop rng i temporaryqueue shuffledqueue) =
            mset (shuffledqueue @ [temporaryqueue ! ?k]) +
            mset (take ?k temporaryqueue @ drop (Suc ?k) temporaryqueue)"
      using True "1.IH" [OF True refl]
      by (subst shuffle_loop.simps) (simp add: Let_def)
    also have "\<dots> = mset shuffledqueue +
            (mset (take ?k temporaryqueue @ drop (Suc ?k) temporaryqueue) +
             {#temporaryqueue ! ?k#})"
      by simp
    also have "\<dots> = mset shuffledqueue + mset temporaryqueue"
      using mset_pop [OF k] by simp
    finally show ?thesis .
  next
    case False
    then show ?thesis by (subst shuffle_loop.simps) simp
  qed
qed

lemma shuffle_loop_Nil: "shuffle_loop rng i [] shuffledqueue = shuffledqueue"
  by (subst shuffle_loop.simps) simp

lemma shuffle_loop_single: "shuffle_loop rng i [x] shuffledqueue = shuffledqueue @ [x]"
  by (subst shuffle_loop.simps) (simp add: randint_def shuffle_loop_Nil)

lemma shuffle_loop_short:
  assumes "length temporaryqueue \<le> 1"
  shows "shuffle_loop rng i temporaryqueue [] = temporaryqueue"
proof (cases temporaryqueue)
  case Nil
  then show ?thesis by (simp add: shuffle_loop_Nil)
next
  case (Cons x rest)
  then have "rest = []" using assms by simp
  then show ?thesis using Cons by (simp add: shuffle_loop_single)
qed

lemma deref_None [simp]: "deref h None = None"
  by (simp add: deref_def)

lemma deref_Some [simp]: "deref h (Some a) = Some (h ! a)"
  by (simp add: deref_def)

lemma deepcopy_props:
  assumes "deepcopy memo h xs = (h', ys)"
    and "\<forall>a. Some a \<in> set xs \<longrightarrow> a < length h"
    and "\<forall>a b. map_of memo a = Some b \<longrightarrow> a < length h \<and> b < length h \<and> n0 \<le> b \<and> h ! b = h ! a"
    and "n0 \<le> length h"
  shows "(\<exists>ext. h' = h @ ext) \<and> map (deref h') ys = map (deref h) xs \<and>
         (\<forall>b. Some b \<in> set ys \<longrightarrow> n0 \<le> b \<and> b < length h')"
  using assms
proof (induction xs arbitrary: memo h h' ys)
  case Nil
  then show ?case by simp
next
  case (Cons x xs)
  show ?case
  proof (cases x)
    case None
    obtain h1 ys1 where r: "deepcopy memo h xs = (h1, ys1)"
      by (cases "deepcopy memo h xs")
    then have res: "h' = h1" "ys = None # ys1"
      using Cons.prems(1) None by simp_all
    have "(\<exists>ext. h1 = h @ ext) \<and> map (deref h1) ys1 = map (deref h) xs \<and>
         (\<forall>b. Some b \<in> set ys1 \<longrightarrow> n0 \<le> b \<and> b < length h1)"
      using Cons.IH [OF r] Cons.prems(2-4) by simp
    then show ?thesis using res None by simp
  next
    case (Some a)
    have a: "a < length h" using Cons.prems(2) Some by simp
    show ?thesis
    proof (cases "map_of memo a")
      case hit: (Some b)
      obtain h1 ys1 where r: "deepcopy memo h xs = (h1, ys1)"
        by (cases "deepcopy memo h xs")
      then have res: "h' = h1" "ys = Some b # ys1"
        using Cons.prems(1) Some hit by simp_all
      have ih: "(\<exists>ext. h1 = h @ ext) \<and> map (deref h1) ys1 = map (deref h) xs \<and>
         (\<forall>b. Some b \<in> set ys1 \<longrightarrow> n0 \<le> b \<and> b < length h1)"
        using Cons.IH [OF r] Cons.prems(2-4) by simp
      have b: "b < length h \<and> n0 \<le> b \<and> h ! b = h ! a"
        using Cons.prems(3) hit by blast
      then have "h1 ! b = h ! a" "b < length h1"
        using ih by (auto simp: nth_append)
      then show ?thesis using res Some ih b by simp
    next
      case miss: None
      let ?h2 = "h @ [h ! a]"
      let ?memo = "(a, length h) # memo"
      obtain h1 ys1 where r: "deepcopy ?memo ?h2 xs = (h1, ys1)"
        by (cases "deepcopy ?memo ?h2 xs")
      then have res: "h' = h1" "ys = Some (length h) # ys1"
        using Cons.prems(1) Some miss by (simp_all add: Let_def)
      have p2: "\<forall>a. Some a \<in> set xs \<longrightarrow> a < length ?h2"
        using Cons.prems(2) by (simp add: less_Suc_eq)
      have p3: "\<forall>a' b. map_of ?memo a' = Some b \<longrightarrow>
                  a' < length ?h2 \<and> b < length ?h2 \<and> n0 \<le> b \<and> ?h2 ! b = ?h2 ! a'"
        using Cons.prems(3,4) a by (auto simp: nth_append less_Suc_eq)
      have p4: "n0 \<le> length ?h2" using Cons.prems(4) by simp
      have ih: "(\<exists>ext. h1 = ?h2 @ ext) \<and> map (deref h1) ys1 = map (deref ?h2) xs \<and>
         (\<forall>b. Some b \<in> set ys1 \<longrightarrow> n0 \<le> b \<and> b < length h1)"
        using Cons.IH [OF r p2 p3 p4] .
      then obtain ext where ext: "h1 = h @ [h ! a] @ ext" by auto
      have same: "map (deref ?h2) xs = map (deref h) xs"
      proof (rule map_cong [OF refl])
        fix y assume "y \<in> set xs"
        then have bound: "\<forall>c. y = Some c \<longrightarrow> c < length h"
          using Cons.prems(2) by auto
        show "deref ?h2 y = deref h y"
        proof (cases y)
          case None
          then show ?thesis by simp
        next
          case (Some c)
          then have "c < length h" using bound by simp
          then show ?thesis using Some by (simp add: nth_append)
        qed
      qed
      have new: "h1 ! length h = h ! a" "length h < length h1"
        using ext by (simp_all add: nth_append)
      show ?thesis
        using res Some ih ext same new Cons.prems(4) by simp
    qed
  qed
qed

lemma shuffle_fields:
  assumes "deepcopy [] (heap st) (queue (guild_player st g)) = (h, tq)"
  shows "heap (shuffle rng g st) = h"
    and "guild_player (shuffle rng g st) g =
           (guild_player st g)\<lparr>queue := shuffle_loop rng 0 tq []\<rparr>"
  using assms
  by (simp_all add: shuffle_def Let_def send_def set_guild_player_def guild_player_def
      update_conv')

text \<open>
  C4, as amended.  In a state whose queue refers to existing songs, \<open>shuffle\<close> replaces the
  queue of the guild with a list of deep copies: read through the heap, the new queue holds
  the same songs as the old one, each as often (any order); every song it refers to is an
  object made by the command, none is an object of the old queue; the objects that existed
  before are unchanged, and so is the current track; a queue of at most one entry keeps its
  contents and their order.
\<close>

theorem shuffle_copies_and_permutes:
  assumes "\<forall>a. Some a \<in> set (queue (guild_player st g)) \<longrightarrow> a < length (heap st)"
  shows "mset (map (deref (heap (shuffle rng g st))) (queue (guild_player (shuffle rng g st) g)))
           = mset (map (deref (heap st)) (queue (guild_player st g))) \<and>
         (\<forall>a. Some a \<in> set (queue (guild_player (shuffle rng g st) g)) \<longrightarrow>
              length (heap st) \<le> a \<and> a < length (heap (shuffle rng g st))) \<and>
         take (length (heap st)) (heap (shuffle rng g st)) = heap st \<and>
         current_song (guild_player (shuffle rng g st) g) = current_song (guild_player st g) \<and>
         (length (queue (guild_player st g)) \<le> 1 \<longrightarrow>
            map (deref (heap (shuffle rng g st))) (queue (guild_player (shuffle rng g st) g))
              = map (deref (heap st)) (queue (guild_player st g)))"
proof -
  obtain h tq where dc: "deepcopy [] (heap st) (queue (guild_player st g)) = (h, tq)"
    by (cases "deepcopy [] (heap st) (queue (guild_player st g))")
  have props: "(\<exists>ext. h = heap st @ ext) \<and>
      map (deref h) tq = map (deref (heap st)) (queue (guild_player st g)) \<and>
      (\<forall>b. Some b \<in> set tq \<longrightarrow> length (heap st) \<le> b \<and> b < length h)"
    using deepcopy_props [OF dc assms, of "length (heap st)"] by simp
  let ?q = "shuffle_loop rng 0 tq []"
  have hp: "heap (shuffle rng g st) = h"
    and pl: "guild_player (shuffle rng g st) g = (guild_player st g)\<lparr>queue := ?q\<rparr>"
    using shuffle_fields [OF dc] by simp_all
  have perm: "mset ?q = mset tq"
    by (simp add: shuffle_loop_mset)
  have "mset (map (deref h) ?q) = mset (map (deref h) tq)"
    using perm by (metis mset_map)
  then have c1: "mset (map (deref h) ?q) = mset (map (deref (heap st)) (queue (guild_player st g)))"
    using props by simp
  have "set ?q = set tq"
    using perm by (metis set_mset_mset)
  then have c2: "\<forall>a. Some a \<in> set ?q \<longrightarrow> length (heap st) \<le> a \<and> a < length h"
    using props by simp
  have c3: "take (length (heap st)) h = heap st"
    using props by auto
  have len: "length tq = length (queue (guild_player st g))"
    using props by (metis length_map)
  have c5: "length (queue (guild_player st g)) \<le> 1 \<longrightarrow>
      map (deref h) ?q = map (deref (heap st)) (queue (guild_player st g))"
    using props len by (simp add: shuffle_loop_short)
  show ?thesis
    using c1 c2 c3 c5 by (simp add: hp pl)
qed

text \<open>The statement at the guild that plays song 0 with song 1 queued.\<close>

theorem shuffle_copies_and_permutes_witness:
  "mset (map (deref (heap (shuffle zero_draws 1 playing_state)))
          (queue (guild_player (shuffle zero_draws 1 playing_state) 1)))
     = {#Some song_b#} \<and>
   current_song (guild_player (shuffle zero_draws 1 playing_state) 1) = Some 0 \<and>
   take 2 (heap (shuffle zero_draws 1 playing_state)) = [song_a, song_b]"
proof -
  have q: "queue (guild_player playing_state (Suc 0)) = [Some (Suc 0)]"
    and c: "current_song (guild_player playing_state (Suc 0)) = Some 0"
    and h: "heap playing_state = [song_a, song_b]"
    by (simp_all add: playing_state_def guild_player_def)
  have wf: "\<forall>a. Some a \<in> set (queue (guild_player playing_state 1)) \<longrightarrow>
              a < length (heap playing_state)"
    by (simp add: playing_state_def guild_player_def)
  show ?thesis
    using shuffle_copies_and_permutes [OF wf, of zero_draws]
    by (simp add: q c h numeral_2_eq_2)
qed

text \<open>
  C4 as stated fails: the queue that held the object at position 1 of the heap holds, after
  \<open>shuffle\<close>, the new object at position 2, a copy and not the same Track object; so on a
  queue of length 1 the command is not a no-op either.
\<close>

theorem shuffle_identity_counterexample:
  "queue (guild_player playing_state 1) = [Some 1] \<and>
   queue (guild_player (shuffle zero_draws 1 playing_state) 1) = [Some 2]"
  by (simp add: shuffle_def playing_state_def guild_player_def set_guild_player_def send_def
      shuffle_loop_single)

subsection \<open>Songs\<close>

lemma deepcopy_extends: "\<exists>ext. fst (deepcopy memo h xs) = h @ ext"
proof (induction xs arbitrary: memo h)
  case Nil
  then show ?case by simp
next
  case (Cons x xs)
  show ?case
  proof (cases x)
    case None
    then show ?thesis using Cons.IH [of memo h] by (simp add: split_beta)
  next
    case (Some a)
    show ?thesis
    proof (cases "map_of memo a")
      case None
      obtain ext where "fst (deepcopy ((a, length h) # memo) (h @ [h ! a]) xs) = (h @ [h ! a]) @ ext"
        using Cons.IH [of "(a, length h) # memo" "h @ [h ! a]"] by blast
      then show ?thesis using Some None by (simp add: split_beta Let_def)
    next
      case (Some b)
      then show ?thesis using \<open>x = Some a\<close> Cons.IH [of memo h] by (simp add: split_beta)
    qed
  qed
qed

lemma heap_stop: "heap (stop g st) = heap st"
  by (simp add: stop_def Let_def send_def set_guild_player_def split: option.splits)

lemma heap_shuffle:
  "heap (shuffle rng g st) = fst (deepcopy [] (heap st) (queue (guild_player st g)))"
  by (simp add: shuffle_def Let_def send_def set_guild_player_def split_beta)

text \<open>
  C9.  A Song made from a payload (a dict) has as id, title, album name, artist name,
  cover-art id and duration the payload's values under \<^verbatim>\<open>id\<close>, \<^verbatim>\<open>title\<close>, \<^verbatim>\<open>album\<close>,
  \<^verbatim>\<open>artist\<close>, \<^verbatim>\<open>coverArt\<close> and \<^verbatim>\<open>duration\<close> where the payload has the key, and otherwise
  the empty string (id and cover id), \<^verbatim>\<open>Unknown Track\<close>, \<^verbatim>\<open>Unknown Album\<close>,
  \<^verbatim>\<open>Unknown Artist\<close> and 0.  A Song is a value whose fields are read only; the two commands
  that handle queued songs leave every existing Song object as it was made: \<open>stop\<close> does
  not touch the heap and \<open>shuffle\<close> only adds objects to it.
\<close>

theorem Song_init_fields:
  "Song_init (JObj kvs) =
     Inr \<lparr>song_id = (case map_of kvs ''id'' of None \<Rightarrow> JStr '''' | Some v \<Rightarrow> v),
          title = (case map_of kvs ''title'' of None \<Rightarrow> JStr ''Unknown Track'' | Some v \<Rightarrow> v),
          album = (case map_of kvs ''album'' of None \<Rightarrow> JStr ''Unknown Album'' | Some v \<Rightarrow> v),
          artist = (case map_of kvs ''artist'' of None \<Rightarrow> JStr ''Unknown Artist'' | Some v \<Rightarrow> v),
          cover_id = (case map_of kvs ''coverArt'' of None \<Rightarrow> JStr '''' | Some v \<Rightarrow> v),
          duration = (case map_of kvs ''duration'' of None \<Rightarrow> JInt 0 | Some v \<Rightarrow> v)\<rparr> \<and>
   heap (stop g st) = heap st \<and>
   take (length (heap st)) (heap (shuffle rng g st)) = heap st"
proof -
  obtain ext where "heap (shuffle rng g st) = heap st @ ext"
    using deepcopy_extends [of "[]" "heap st" "queue (guild_player st g)"]
    by (auto simp: heap_shuffle)
  then show ?thesis
    by (simp add: Song_init_def field_or_dict heap_stop)
qed

subsection \<open>The occupancy watchdog\<close>

lemma watch_expire_alone:
  "watch_expire guild 1 st = (st', acts) \<Longrightarrow>
     acts = [Disconnect guild] \<and> map_of (voice_clients st') guild = None \<and>
     guild_player st' guild = \<lparr>queue = [], current_song = None\<rparr> \<and> heap st' = heap st"
  by (auto simp: watch_expire_def Let_def set_guild_player_def guild_player_def update_conv'
      delete_conv')

lemma watch_expire_all_calls:
  "snd (watch_expire_all guild readings st) =
     map (\<lambda>m. Disconnect guild) (filter (\<lambda>m. m = 1) readings)"
proof (induction readings arbitrary: st)
  case Nil
  then show ?case by simp
next
  case (Cons m ms)
  show ?case
  proof (cases "m = 1")
    case True
    then show ?thesis
      using Cons.IH by (simp add: watch_expire_def Let_def split_beta)
  next
    case False
    then show ?thesis
      using Cons.IH by (simp add: watch_expire_def Let_def split_beta)
  qed
qed

text \<open>
  C8, as amended.  A voice-state event for a guild starts the 10-second wait exactly when
  the bot has a voice connection in the guild and its channel has one member, the bot.  When
  the wait ends and the channel still has one member, the handler disconnects the bot and
  resets the guild's Player: the queue is emptied and the current track cleared.  When the
  channel then has another number of members, nothing changes and no disconnect is issued.
  Each trigger waits and checks on its own: of several overlapping triggers for one guild,
  every one that has begun to wait and reads one member at the end of its wait issues a
  disconnect, so the disconnects of overlapping triggers are not merged into one.
\<close>

theorem watchdog_debounce:
  "(watch_begin guild members_at_event st \<longleftrightarrow>
      map_of (voice_clients st) guild \<noteq> None \<and> members_at_event = 1) \<and>
   (\<not> watch_begin guild members_at_event st \<longrightarrow>
      on_voice_state_update guild members_at_event members_at_expiry st = (st, [])) \<and>
   (watch_begin guild members_at_event st \<and> members_at_expiry = 1 \<longrightarrow>
      snd (on_voice_state_update guild members_at_event members_at_expiry st) =
        [Sleep 10, Disconnect guild] \<and>
      map_of (voice_clients
          (fst (on_voice_state_update guild members_at_event members_at_expiry st))) guild = None \<and>
      guild_player (fst (on_voice_state_update guild members_at_event members_at_expiry st)) guild =
        \<lparr>queue = [], current_song = None\<rparr>) \<and>
   (watch_begin guild members_at_event st \<and> members_at_expiry \<noteq> 1 \<longrightarrow>
      on_voice_state_update guild members_at_event members_at_expiry st = (st, [Sleep 10])) \<and>
   (members \<noteq> 1 \<longrightarrow> watch_expire guild members st = (st, [])) \<and>
   snd (overlapping_triggers guild triggers st) =
     map (\<lambda>t. Sleep 10) (filter (\<lambda>t. watch_begin guild (fst t) st) triggers) @
     map (\<lambda>t. Disconnect guild)
       (filter (\<lambda>t. watch_begin guild (fst t) st \<and> snd t = 1) triggers)"
proof (intro conjI impI)
  show "watch_begin guild members_at_event st \<longleftrightarrow>
      map_of (voice_clients st) guild \<noteq> None \<and> members_at_event = 1"
    by (simp add: watch_begin_def split: option.splits)
next
  assume "\<not> watch_begin guild members_at_event st"
  then show "on_voice_state_update guild members_at_event members_at_expiry st = (st, [])"
    by (simp add: on_voice_state_update_def)
next
  assume a: "watch_begin guild members_at_event st \<and> members_at_expiry = 1"
  obtain st' acts where r: "watch_expire guild 1 st = (st', acts)"
    by (cases "watch_expire guild 1 st")
  have u: "on_voice_state_update guild members_at_event members_at_expiry st = (st', Sleep 10 # acts)"
    using a r by (simp add: on_voice_state_update_def)
  show "snd (on_voice_state_update guild members_at_event members_at_expiry st) =
        [Sleep 10, Disconnect guild]"
    using u watch_expire_alone [OF r] by simp
  show "map_of (voice_clients
          (fst (on_voice_state_update guild members_at_event members_at_expiry st))) guild = None"
    using u watch_expire_alone [OF r] by simp
  show "guild_player (fst (on_voice_state_update guild members_at_event members_at_expiry st)) guild =
        \<lparr>queue = [], current_song = None\<rparr>"
    using u watch_expire_alone [OF r] by simp
next
  assume "watch_begin guild members_at_event st \<and> members_at_expiry \<noteq> 1"
  then show "on_voice_state_update guild members_at_event members_at_expiry st = (st, [Sleep 10])"
    by (simp add: on_voice_state_update_def watch_expire_def)
next
  assume "members \<noteq> 1"
  then show "watch_expire guild members st = (st, [])"
    by (simp add: watch_expire_def)
next
  show "snd (overlapping_triggers guild triggers st) =
     map (\<lambda>t. Sleep 10) (filter (\<lambda>t. watch_begin guild (fst t) st) triggers) @
     map (\<lambda>t. Disconnect guild)
       (filter (\<lambda>t. watch_begin guild (fst t) st \<and> snd t = 1) triggers)"
    by (simp add: overlapping_triggers_def Let_def split_beta watch_expire_all_calls
        filter_map o_def conj_commute case_prod_unfold)
qed

text \<open>The statement at the guild that is playing: alone at both readings, joined before the
  end of the wait, and not alone at the event.\<close>

theorem watchdog_debounce_witness:
  "watch_begin 1 1 playing_state \<and>
   snd (on_voice_state_update 1 1 1 playing_state) = [Sleep 10, Disconnect 1] \<and>
   guild_player (fst (on_voice_state_update 1 1 1 playing_state)) 1 =
     \<lparr>queue = [], current_song = None\<rparr> \<and>
   on_voice_state_update 1 1 2 playing_state = (playing_state, [Sleep 10]) \<and>
   on_voice_state_update 1 2 2 playing_state = (playing_state, [])"
proof -
  have c: "map_of (voice_clients playing_state) 1 \<noteq> None"
    by (simp add: playing_state_def)
  show ?thesis
    using watchdog_debounce [where guild=1 and members_at_event=1 and st=playing_state
          and members_at_expiry=1]
      watchdog_debounce [where guild=1 and members_at_event=1 and st=playing_state
          and members_at_expiry=2]
      watchdog_debounce [where guild=1 and members_at_event=2 and st=playing_state
          and members_at_expiry=2] c
    by simp
qed

text \<open>
  C8 as stated fails in its last clause: two triggers overlap while the bot is alone, and
  each reads one member when its wait ends (after the first disconnect the channel has one
  member again when a single user has entered it).  Both handlers call
  \<^verbatim>\<open>voice_client.disconnect()\<close> and reset the Player.
\<close>

theorem watchdog_double_disconnect_counterexample:
  "snd (overlapping_triggers 1 [(1, 1), (1, 1)] playing_state) =
     [Sleep 10, Sleep 10, Disconnect 1, Disconnect 1]"
  by (simp add: overlapping_triggers_def watch_begin_def watch_expire_def playing_state_def
      Let_def split_beta)

subsection \<open>Artist discography\<close>




















text \<open>The definitions that evaluate an operation on the example server.\<close>

lemmas eval_defs = get_artist_discography_def get_artist_id_def fetch_json_def session_get_def
  io_bind_def check_subsonic_error_def artist_id_request_def artist_request_def
  album_request_def dict_union_def SUBSONIC_REQUEST_PARAMS_def env0_def disco_server_def
  answer_def ok_envelope_def album_body_def raise_for_status_def response_json_def
  first_artist_id_def artist_albums_def album_of_response_def Album_init_def AlbumMeta_init_def
  Song_init_def field_or_def album_x_def world0_def failed_envelope_def match_err_code_def
  logger_warning_def AlbumMeta.defs Album.defs ok_body_def album_fetched_def not_found_def

text \<open>On the example server the discography is the list of both albums; when the first album
  request is refused, the result is \<^verbatim>\<open>None\<close> and the second album is never requested.\<close>

lemma discography_example:
  "fst (get_artist_discography env0 (disco_server JNull) ''x'' world0) =
     Inr (Some [album_x (JStr ''al1''), album_x (JStr ''al2'')])"
  by (simp add: eval_defs)

lemma discography_fail_fast_example:
  "fst (get_artist_discography env0 (disco_server (JStr ''al1'')) ''x'' world0) = Inr None \<and>
   requests (snd (get_artist_discography env0 (disco_server (JStr ''al1'')) ''x'' world0)) =
     [artist_id_request env0 ''x'', artist_request env0 (JStr ''ar1''),
      album_request env0 (JStr ''al1'')]"
  by (simp add: eval_defs)


end
